theory Spec2Isabelle
  imports Complex_Main "HOL-Library.Word"
begin

unbundle bit_operations_syntax

section \<open>Data model of the watch firmware\<close>

text \<open>
  The firmware keeps its whole state in global variables. The model gathers the globals
  that the arcade games, the pet and the screen navigation read or write in one record
  \<open>watch\<close>; every source function becomes a function that takes the record and returns
  the updated one.

  Conventions of the embedding:
  \<^item> \<open>uint8_t\<close>, \<open>uint16_t\<close>, \<open>uint32_t\<close> and \<open>long\<close>/\<open>unsigned long\<close> (32 bits on
    the RP2350) are words of that width;
  \<^item> C \<open>int\<close> variables (scores, grid coordinates, counters) are \<open>int\<close>: the game logic
    keeps them far from the 32-bit limits;
  \<^item> \<open>float\<close> variables are \<open>real\<close>: the model computes the exact value where the
    hardware rounds to single precision;
  \<^item> \<open>millis()\<close> is an input: functions that call it take the sample as \<open>now\<close>;
  \<^item> drawing, audio and \<open>delay\<close> calls write no modelled variable and are left out.
\<close>

type_synonym u8 = "8 word"
type_synonym u16 = "16 word"
type_synonym u32 = "32 word"

datatype VButton = BTN_UP | BTN_SELECT | BTN_DOWN | BTN_BACK

datatype Screen =
  SCR_WATCHFACE | SCR_MENU | SCR_APP | SCR_TL_PAST | SCR_TL_FUTURE
  | SCR_SETTINGS_MENU | SCR_SET_TIME | SCR_SET_DATE | SCR_SETTINGS_ABOUT
  | SCR_GAMES_MENU | SCR_GAME_ARCADE | SCR_GAME_TAMAGOTCHI

datatype GameState = GAME_MENU | ASTEROIDS | TETRIS | SNAKE | BREAKOUT

datatype PetMood = HAPPY | NEUTRAL | SAD | SICK | SLEEPING

datatype PetStage = EGG | BABY | CHILD | TEEN | ADULT

text \<open>
  The three entity structs share the field names \<open>x\<close>, \<open>y\<close>, \<open>dx\<close>, \<open>dy\<close> in the
  source; the model prefixes them with the struct's initial.
\<close>

record Ship =
  s_x :: real
  s_y :: real
  s_angle :: real
  s_dx :: real
  s_dy :: real
  s_alive :: bool

record Bullet =
  b_x :: real
  b_y :: real
  b_dx :: real
  b_dy :: real
  b_active :: bool
  b_fired_time :: u32

record Asteroid =
  a_x :: real
  a_y :: real
  a_dx :: real
  a_dy :: real
  a_angle :: real
  a_spin :: real
  a_size :: int
  a_active :: bool

record Tamagotchi =
  name :: string
  stage :: PetStage
  mood :: PetMood
  hunger :: u8
  happiness :: u8
  health :: u8
  cleanliness :: u8
  age_hours :: u8
  age_days :: u16
  is_sleeping :: bool
  needs_cleanup :: bool
  last_poop_time :: u32
  petting_count :: u8
  last_creature_move :: u32
  last_eye_move :: u32
  creature_offset_x :: u8
  creature_offset_y :: u8
  eye_offset_x :: u8
  eye_offset_y :: u8

text \<open>
  The globals. \<open>clock_h\<close> and \<open>clock_m\<close> are the source's \<open>h\<close> and \<open>m\<close>;
  \<open>last_game_update\<close>, \<open>last_stat_decay\<close> and \<open>last_redraw\<close> are the function-local
  statics of \<open>loop\<close>.
\<close>

record watch =
  rng_seed :: u32
  current_screen :: Screen
  clock_h :: u8
  clock_m :: u8
  day :: u8
  month :: u8
  year :: u16
  menu_sel :: int
  games_sel :: int
  settings_sel :: int
  set_time_field :: int
  set_time_dirty :: bool
  last_time_button_press :: u32
  set_date_field :: int
  set_date_dirty :: bool
  last_date_button_press :: u32
  current_game :: GameState
  game_over :: bool
  game_score :: int
  high_scores :: "int list"
  ship :: Ship
  bullets :: "Bullet list"
  asteroids :: "Asteroid list"
  asteroids_level :: int
  tetris_grid :: "int list list"
  tetris_current_piece :: "int list list"
  tetris_current_type :: int
  tetris_next_type :: int
  tetris_piece_x :: int
  tetris_piece_y :: int
  tetris_last_drop :: u32
  tetris_drop_speed :: int
  tetris_lines_cleared :: int
  tetris_piece_placed :: bool
  snake_x :: "int list"
  snake_y :: "int list"
  snake_length :: int
  snake_dir :: int
  snake_food_x :: int
  snake_food_y :: int
  snake_last_move :: u32
  snake_speed :: int
  bricks :: "bool list list"
  ball_x :: real
  ball_y :: real
  ball_dx :: real
  ball_dy :: real
  paddle_x :: real
  bricks_remaining :: int
  pet :: Tamagotchi
  last_game_update :: u32
  last_stat_decay :: u32
  last_redraw :: u32

definition AMOLED_1IN8_WIDTH :: int where "AMOLED_1IN8_WIDTH = 368"
definition AMOLED_1IN8_HEIGHT :: int where "AMOLED_1IN8_HEIGHT = 448"

section \<open>The custom random number generator\<close>

text \<open>
  \<^verbatim>\<open>rng_seed = (rng_seed * 1103515245 + 12345) & 0x7fffffff; return rng_seed % max_val;\<close>
  The product wraps in the 32-bit \<open>unsigned long\<close>; \<open>max_val\<close>, a \<open>long\<close>, is converted
  to \<open>unsigned long\<close> for the remainder, so \<open>mod\<close> is the unsigned one of words.
  (A zero \<open>max_val\<close> divides by zero in C; no caller passes it and no theorem below
  uses it.)
\<close>

definition seed_rng :: "u32 \<Rightarrow> watch \<Rightarrow> watch" where
  "seed_rng seed st = st\<lparr>rng_seed := seed\<rparr>"

definition rng_next :: "u32 \<Rightarrow> u32" where
  "rng_next s = (s * 1103515245 + 12345) AND 0x7fffffff"

definition rng1 :: "u32 \<Rightarrow> watch \<Rightarrow> u32 \<times> watch" where
  "rng1 max_val st =
     (let st' = st\<lparr>rng_seed := rng_next (rng_seed st)\<rparr>
      in (rng_seed st' mod max_val, st'))"

definition rng :: "u32 \<Rightarrow> u32 \<Rightarrow> watch \<Rightarrow> u32 \<times> watch" where
  "rng min_val max_val st =
     (let (r, st') = rng1 (max_val - min_val) st in (min_val + r, st'))"

text \<open>
  Callers pass \<open>int\<close> constants and store the \<open>long\<close> result in an \<open>int\<close> or a
  \<open>float\<close>; these two wrappers are that conversion.
\<close>

definition rng1_int :: "int \<Rightarrow> watch \<Rightarrow> int \<times> watch" where
  "rng1_int max_val st = (let (r, st') = rng1 (word_of_int max_val) st in (sint r, st'))"

definition rng_int :: "int \<Rightarrow> int \<Rightarrow> watch \<Rightarrow> int \<times> watch" where
  "rng_int min_val max_val st =
     (let (r, st') = rng (word_of_int min_val) (word_of_int max_val) st in (sint r, st'))"

text \<open>A run of calls \<open>rng(min, max)\<close>, collecting the values returned.\<close>

fun rng_run :: "(u32 \<times> u32) list \<Rightarrow> watch \<Rightarrow> u32 list \<times> watch" where
  "rng_run [] st = ([], st)"
| "rng_run ((lo, hi) # cs) st =
     (let (r, st') = rng lo hi st; (rs, st'') = rng_run cs st' in (r # rs, st''))"

section \<open>The pet\<close>

text \<open>
  \<open>init_pet\<close> as in the source; the three \<open>millis()\<close> calls are one sample.
\<close>

definition init_pet :: "u32 \<Rightarrow> watch \<Rightarrow> watch" where
  "init_pet now st = st\<lparr>pet :=
     \<lparr>name = ''Buddy'', stage = EGG, mood = NEUTRAL,
      hunger = 50, happiness = 50, health = 100, cleanliness = 100,
      age_hours = 0, age_days = 0, is_sleeping = False, needs_cleanup = False,
      last_poop_time = now, petting_count = 0,
      last_creature_move = now, last_eye_move = now,
      creature_offset_x = 0, creature_offset_y = 0,
      eye_offset_x = 0, eye_offset_y = 0\<rparr>\<rparr>"

text \<open>
  The stats are \<open>uint8_t\<close>. In \<^verbatim>\<open>pet.hunger = min(100, pet.hunger + 20)\<close> the stat is
  promoted to \<open>int\<close>, the sum and the minimum are computed there, and the assignment
  truncates to eight bits; \<open>stat_up\<close> and \<open>stat_down\<close> are those two expression shapes.
\<close>

definition stat_up :: "u8 \<Rightarrow> int \<Rightarrow> u8" where
  "stat_up v n = word_of_int (min 100 (uint v + n))"

definition stat_down :: "u8 \<Rightarrow> int \<Rightarrow> u8" where
  "stat_down v n = word_of_int (max 0 (uint v - n))"

text \<open>
  The Tamagotchi branch of \<open>handle_touch\<close>, for a touch point \<open>(tx, ty)\<close>. The button
  row starts at \<open>start_x = (368 - 295) / 2 = 36\<close>.
\<close>

definition touch_tamagotchi :: "u16 \<Rightarrow> u16 \<Rightarrow> watch \<Rightarrow> watch" where
  "touch_tamagotchi tx ty st =
     (let p = pet st;
          btn_w = 70 :: int;
          btn_spacing = 5 :: int;
          total_width = (btn_w * 4) + (btn_spacing * 3);
          start_x = (AMOLED_1IN8_WIDTH - total_width) div 2;
          x = uint tx;
          y = uint ty
      in if stage p = EGG then st\<lparr>pet := p\<lparr>stage := BABY\<rparr>\<rparr>
         else if y \<ge> 410 \<and> y \<le> 445 then
           (if x \<ge> start_x \<and> x \<le> start_x + btn_w then
              st\<lparr>pet := p\<lparr>hunger := stat_up (hunger p) 20,
                             happiness := stat_up (happiness p) 5\<rparr>\<rparr>
            else if x \<ge> start_x + btn_w + btn_spacing
                    \<and> x \<le> start_x + (btn_w * 2) + btn_spacing then
              st\<lparr>pet := p\<lparr>happiness := stat_up (happiness p) 20,
                             hunger := stat_down (hunger p) 5\<rparr>\<rparr>
            else if x \<ge> start_x + (btn_w * 2) + (btn_spacing * 2)
                    \<and> x \<le> start_x + (btn_w * 3) + (btn_spacing * 2) then
              st\<lparr>pet := p\<lparr>cleanliness := 100,
                             happiness := stat_up (happiness p) 10\<rparr>\<rparr>
            else if x \<ge> start_x + (btn_w * 3) + (btn_spacing * 3)
                    \<and> x \<le> start_x + (btn_w * 4) + (btn_spacing * 3) then
              st\<lparr>pet := p\<lparr>health := stat_up (health p) 30\<rparr>\<rparr>
            else st)
         else if y > 80 \<and> y < 280 then
           st\<lparr>pet := p\<lparr>happiness := stat_up (happiness p) 3,
                          petting_count := petting_count p + 1\<rparr>\<rparr>
         else st)"

text \<open>
  The Tamagotchi section of \<open>loop\<close>, in four steps: the two animations (which draw
  offsets from the generator), the 30-second decay, and the final clamps. The clamps
  compare unsigned bytes with 0, as the source does.
\<close>

definition pet_animate :: "u32 \<Rightarrow> watch \<Rightarrow> watch" where
  "pet_animate now st =
     (let st1 =
            (if now - last_creature_move (pet st) > 3000 then
               (let (ox, sa) = rng (word_of_int (- 5)) 6 st;
                    (oy, sb) = rng (word_of_int (- 5)) 6 sa
                in sb\<lparr>pet := (pet sb)\<lparr>last_creature_move := now,
                       creature_offset_x := ucast ox, creature_offset_y := ucast oy\<rparr>\<rparr>)
             else st)
      in if now - last_eye_move (pet st1) > 1000 then
           (let (ex, sa) = rng (word_of_int (- 3)) 4 st1;
                (ey, sb) = rng (word_of_int (- 3)) 4 sa
            in sb\<lparr>pet := (pet sb)\<lparr>last_eye_move := now,
                   eye_offset_x := ucast ex, eye_offset_y := ucast ey\<rparr>\<rparr>)
         else st1)"

definition pet_decay :: "watch \<Rightarrow> watch" where
  "pet_decay st =
     (let p = pet st;
          p1 = (if hunger p > 0 then p\<lparr>hunger := stat_down (hunger p) 2\<rparr> else p);
          p2 = (if happiness p1 > 0 then p1\<lparr>happiness := stat_down (happiness p1) 1\<rparr>
                else p1);
          p3 = (if cleanliness p2 > 0
                then p2\<lparr>cleanliness := stat_down (cleanliness p2) 1\<rparr> else p2);
          p4 = (if hunger p3 < 20 \<or> happiness p3 < 20 \<or> cleanliness p3 < 30
                then p3\<lparr>health := stat_down (health p3) 3\<rparr> else p3)
      in st\<lparr>pet := p4\<rparr>)"

definition pet_clamp :: "watch \<Rightarrow> watch" where
  "pet_clamp st =
     (let p = pet st;
          p1 = (if hunger p < 0 then p\<lparr>hunger := 0\<rparr> else p);
          p2 = (if happiness p1 < 0 then p1\<lparr>happiness := 0\<rparr> else p1);
          p3 = (if health p2 < 0 then p2\<lparr>health := 0\<rparr> else p2)
      in st\<lparr>pet := p3\<rparr>)"

definition loop_tamagotchi :: "u32 \<Rightarrow> watch \<Rightarrow> watch" where
  "loop_tamagotchi now st =
     (let st1 = pet_animate now st;
          st2 = (if now - last_stat_decay st1 > 30000
                 then pet_decay (st1\<lparr>last_stat_decay := now\<rparr>) else st1);
          st3 = (if now - last_redraw st2 > 1000 then st2\<lparr>last_redraw := now\<rparr> else st2)
      in pet_clamp st3)"


section \<open>Tetris\<close>

definition GRID_W :: int where "GRID_W = 10"
definition GRID_H :: int where "GRID_H = 20"

definition tetris_pieces :: "int list list list" where
  "tetris_pieces =
     [[[0,1,0,0],[0,1,0,0],[0,1,0,0],[0,1,0,0]],
      [[1,1,0,0],[1,1,0,0],[0,0,0,0],[0,0,0,0]],
      [[0,1,1,0],[1,1,0,0],[0,0,0,0],[0,0,0,0]],
      [[1,1,0,0],[0,1,1,0],[0,0,0,0],[0,0,0,0]],
      [[1,1,1,0],[0,1,0,0],[0,0,0,0],[0,0,0,0]],
      [[1,0,0,0],[1,0,0,0],[1,1,0,0],[0,0,0,0]],
      [[0,1,0,0],[0,1,0,0],[1,1,0,0],[0,0,0,0]]]"

text \<open>
  The grid is a list of \<open>GRID_H\<close> rows of \<open>GRID_W\<close> cells, a piece a list of four
  rows of four cells. \<open>empty_row\<close> is a row after the source's clearing loop over \<open>x\<close>.
\<close>

definition empty_row :: "int list" where
  "empty_row = replicate (nat GRID_W) 0"

definition init_tetris :: "u32 \<Rightarrow> watch \<Rightarrow> watch" where
  "init_tetris now st =
     (let st1 = st\<lparr>game_score := 0, game_over := False, tetris_lines_cleared := 0,
                    tetris_drop_speed := 500, tetris_last_drop := now,
                    tetris_piece_placed := False,
                    tetris_grid := replicate (nat GRID_H) empty_row\<rparr>;
          (t, st2) = rng1_int 7 st1;
          (n, st3) = rng1_int 7 (st2\<lparr>tetris_current_type := t\<rparr>);
          st4 = st3\<lparr>tetris_next_type := n, tetris_piece_x := 3, tetris_piece_y := 0\<rparr>
      in st4\<lparr>tetris_current_piece := tetris_pieces ! nat (tetris_current_type st4)\<rparr>)"

text \<open>
  \<open>tetris_can_place_piece\<close>: the two loops return \<open>false\<close> at the first occupied piece
  cell that leaves the grid at the left, right or bottom, or that lies on an occupied
  grid cell; the grid is read only for a cell inside it.
\<close>

definition piece_cell_ok :: "int list list \<Rightarrow> int \<Rightarrow> int \<Rightarrow> int list list \<Rightarrow> nat \<Rightarrow> nat \<Rightarrow> bool" where
  "piece_cell_ok grid px py piece y x =
     (if piece ! y ! x \<noteq> 0 then
        (let nx = px + int x; ny = py + int y
         in if nx < 0 \<or> nx \<ge> GRID_W \<or> ny \<ge> GRID_H then False
            else if ny \<ge> 0 \<and> grid ! nat ny ! nat nx \<noteq> 0 then False
            else True)
      else True)"

definition tetris_can_place_piece :: "watch \<Rightarrow> int \<Rightarrow> int \<Rightarrow> int list list \<Rightarrow> bool" where
  "tetris_can_place_piece st px py piece =
     list_all (\<lambda>y. list_all (\<lambda>x. piece_cell_ok (tetris_grid st) px py piece y x) [0..<4])
       [0..<4]"

definition place_cell :: "nat \<Rightarrow> nat \<Rightarrow> watch \<Rightarrow> watch" where
  "place_cell y x st =
     (if tetris_current_piece st ! y ! x \<noteq> 0 then
        (let nx = tetris_piece_x st + int x; ny = tetris_piece_y st + int y
         in if ny \<ge> 0 \<and> ny < GRID_H \<and> nx \<ge> 0 \<and> nx < GRID_W then
              st\<lparr>tetris_grid := (tetris_grid st)
                   [nat ny := (tetris_grid st ! nat ny)[nat nx := tetris_current_type st + 1]]\<rparr>
            else st)
      else st)"

definition tetris_place_piece :: "watch \<Rightarrow> watch" where
  "tetris_place_piece st = fold (\<lambda>y. fold (\<lambda>x. place_cell y x) [0..<4]) [0..<4] st"

text \<open>
  \<open>tetris_clear_lines\<close>. \<open>row_full\<close> is the inner loop over \<open>x\<close> with its \<open>break\<close>.
  \<open>shift_rows\<close> is the loop \<^verbatim>\<open>for (move_y = y; move_y > 0; move_y--)\<close> that copies row
  \<open>move_y - 1\<close> into row \<open>move_y\<close>; the loop over \<open>x\<close> inside it copies the ten cells of
  the row, which the model does in one row assignment.

  The outer loop \<^verbatim>\<open>for (y = GRID_H - 1; y >= 0; y--)\<close> steps \<open>y\<close> back up after a
  cleared row (\<open>y++\<close>), so it is not a counted loop: \<open>clear_scan n\<close> is the loop at
  \<open>y = n - 1\<close>, with the number of lines counted so far. The test \<open>y < length grid\<close>
  in \<open>row_full\<close> never fails on the twenty-row array; it makes the function total on
  every list.
\<close>

definition row_full :: "int list list \<Rightarrow> nat \<Rightarrow> bool" where
  "row_full grid y =
     (y < length grid \<and> list_all (\<lambda>x. grid ! y ! x \<noteq> 0) [0..<nat GRID_W])"

fun shift_rows :: "nat \<Rightarrow> int list list \<Rightarrow> int list list" where
  "shift_rows 0 grid = grid"
| "shift_rows (Suc move_y) grid = shift_rows move_y (grid[Suc move_y := grid ! move_y])"

definition clear_row :: "nat \<Rightarrow> int list list \<Rightarrow> int list list" where
  "clear_row y grid = (shift_rows y grid)[0 := empty_row]"

definition full_rows_below :: "nat \<Rightarrow> int list list \<Rightarrow> nat" where
  "full_rows_below n grid = length (filter (row_full grid) [0..<n])"

lemma shift_rows_length [simp]: "length (shift_rows y grid) = length grid"
  by (induction y arbitrary: grid) simp_all

lemma shift_rows_nth:
  "y < length grid \<Longrightarrow> i < length grid \<Longrightarrow>
     shift_rows y grid ! i = (if 0 < i \<and> i \<le> y then grid ! (i - 1) else grid ! i)"
proof (induction y arbitrary: grid)
  case 0
  then show ?case by simp
next
  case (Suc y)
  let ?g = "grid[Suc y := grid ! y]"
  have "shift_rows (Suc y) grid ! i = shift_rows y ?g ! i"
    by simp
  also have "\<dots> = (if 0 < i \<and> i \<le> y then ?g ! (i - 1) else ?g ! i)"
    using Suc.prems by (intro Suc.IH) simp_all
  also have "\<dots> = (if 0 < i \<and> i \<le> Suc y then grid ! (i - 1) else grid ! i)"
    using Suc.prems by (auto simp: nth_list_update le_Suc_eq)
  finally show ?case .
qed

lemma clear_row_nth:
  assumes "y < length grid" and "i < length grid"
  shows "clear_row y grid ! i
       = (if i = 0 then empty_row else if i \<le> y then grid ! (i - 1) else grid ! i)"
proof (cases "i = 0")
  case True
  have "0 < length grid"
    using assms(2) by linarith
  then have "0 < length (shift_rows y grid)"
    by (simp only: shift_rows_length)
  then have "(shift_rows y grid)[0 := empty_row] ! 0 = empty_row"
    by (rule nth_list_update_eq)
  then show ?thesis
    using True by (simp add: clear_row_def)
next
  case False
  then show ?thesis
    using assms by (simp add: clear_row_def shift_rows_nth)
qed

lemma clear_row_length [simp]: "length (clear_row y grid) = length grid"
  by (simp add: clear_row_def)

lemma empty_row_not_full: "\<not> list_all (\<lambda>x. empty_row ! x \<noteq> 0) [0..<nat GRID_W]"
proof
  assume "list_all (\<lambda>x. empty_row ! x \<noteq> 0) [0..<nat GRID_W]"
  then have "empty_row ! 0 \<noteq> 0"
    by (simp add: list_all_iff GRID_W_def)
  then show False
    by (simp add: empty_row_def GRID_W_def)
qed

lemma row_full_cong:
  "y < length g \<Longrightarrow> y' < length g' \<Longrightarrow> g ! y = g' ! y' \<Longrightarrow> row_full g y = row_full g' y'"
  by (simp add: row_full_def)

lemma full_rows_below_clear:
  assumes "row_full grid y"
  shows "full_rows_below (Suc y) (clear_row y grid) < full_rows_below (Suc y) grid"
proof -
  have len: "y < length grid"
    using assms by (simp add: row_full_def)
  let ?c = "clear_row y grid"
  have zero: "\<not> row_full ?c 0"
  proof -
    have "0 < length grid"
      using len by linarith
    from clear_row_nth [OF len this] have "?c ! 0 = empty_row"
      by simp
    then show ?thesis
      using empty_row_not_full by (simp add: row_full_def)
  qed
  have shift: "row_full ?c (Suc i) = row_full grid i" if "i < y" for i
    using that len by (intro row_full_cong) (simp_all add: clear_row_nth)
  have "filter (row_full ?c) [0..<Suc y] = filter (row_full ?c) (0 # map Suc [0..<y])"
    by (simp only: upt_conv_Cons [of 0 "Suc y"] map_Suc_upt)
  also have "\<dots> = filter (row_full ?c) (map Suc [0..<y])"
    using zero by simp
  also have "length \<dots> = length (filter (row_full grid) [0..<y])"
  proof -
    have "filter (\<lambda>i. row_full ?c (Suc i)) [0..<y] = filter (row_full grid) [0..<y]"
      by (rule filter_cong) (simp_all add: shift)
    then show ?thesis
      by (simp add: filter_map comp_def)
  qed
  finally have "full_rows_below (Suc y) ?c = full_rows_below y grid"
    by (simp add: full_rows_below_def)
  moreover have "full_rows_below (Suc y) grid = Suc (full_rows_below y grid)"
    using assms by (simp add: full_rows_below_def)
  ultimately show ?thesis by simp
qed

function clear_scan :: "nat \<Rightarrow> int list list \<Rightarrow> int \<Rightarrow> int list list \<times> int" where
  "clear_scan n grid lines =
     (if n = 0 then (grid, lines)
      else if row_full grid (n - 1) then clear_scan n (clear_row (n - 1) grid) (lines + 1)
      else clear_scan (n - 1) grid lines)"
  by pat_completeness auto
termination
proof (relation "measure (\<lambda>(n, grid, lines). full_rows_below n grid + n)")
  show "wf (measure (\<lambda>(n, grid, lines). full_rows_below n grid + n))"
    by simp
next
  fix n :: nat and grid :: "int list list" and lines :: int
  assume n: "n \<noteq> 0" and full: "row_full grid (n - 1)"
  have "full_rows_below (Suc (n - 1)) (clear_row (n - 1) grid)
          < full_rows_below (Suc (n - 1)) grid"
    by (rule full_rows_below_clear [OF full])
  then show "((n, clear_row (n - 1) grid, lines + 1), n, grid, lines)
          \<in> measure (\<lambda>(n, grid, lines). full_rows_below n grid + n)"
    using n by simp
next
  fix n :: nat and grid :: "int list list" and lines :: int
  assume n: "n \<noteq> 0" and nf: "\<not> row_full grid (n - 1)"
  have "[0..<n] = [0..<n - 1] @ [n - 1]"
    using n by (metis Suc_pred' neq0_conv upt_Suc_append zero_le)
  then have "full_rows_below n grid = full_rows_below (n - 1) grid"
    using nf by (simp add: full_rows_below_def)
  then show "((n - 1, grid, lines), n, grid, lines)
          \<in> measure (\<lambda>(n, grid, lines). full_rows_below n grid + n)"
    using n by simp
qed

declare clear_scan.simps [simp del]

definition tetris_clear_lines :: "watch \<Rightarrow> watch" where
  "tetris_clear_lines st =
     (let (grid, lines) = clear_scan (nat GRID_H) (tetris_grid st) 0;
          st1 = st\<lparr>tetris_grid := grid\<rparr>
      in if lines > 0 then
           (let st2 = st1\<lparr>tetris_lines_cleared := tetris_lines_cleared st1 + lines,
                          game_score := game_score st1 + lines * 100\<rparr>
            in if tetris_lines_cleared st2 \<ge> 10 then
                 st2\<lparr>tetris_drop_speed := max 100 (tetris_drop_speed st2 - 50),
                      tetris_lines_cleared := 0\<rparr>
               else st2)
         else st1)"

text \<open>
  \<open>tetris_rotate_piece\<close>. \<open>rotated\<close> is the local array \<open>temp\<close>; \<open>try_kicks\<close> is the loop
  over \<open>kick_offsets\<close>, returning at the first offset that can be placed.
\<close>

definition rotated :: "int list list \<Rightarrow> int list list" where
  "rotated piece = map (\<lambda>i. map (\<lambda>j. piece ! (3 - j) ! i) [0..<4]) [0..<4]"

definition kick_offsets :: "(int \<times> int) list" where
  "kick_offsets = [(- 1, 0), (1, 0), (- 2, 0), (2, 0), (0, - 1)]"

fun try_kicks :: "(int \<times> int) list \<Rightarrow> int list list \<Rightarrow> watch \<Rightarrow> watch" where
  "try_kicks [] temp st = st"
| "try_kicks (k # ks) temp st =
     (let new_x = tetris_piece_x st + fst k; new_y = tetris_piece_y st + snd k
      in if tetris_can_place_piece st new_x new_y temp then
           st\<lparr>tetris_piece_x := new_x, tetris_piece_y := new_y, tetris_current_piece := temp\<rparr>
         else try_kicks ks temp st)"

definition tetris_rotate_piece :: "watch \<Rightarrow> watch" where
  "tetris_rotate_piece st =
     (let temp = rotated (tetris_current_piece st)
      in if tetris_can_place_piece st (tetris_piece_x st) (tetris_piece_y st) temp then
           st\<lparr>tetris_current_piece := temp\<rparr>
         else try_kicks kick_offsets temp st)"

definition tetris_spawn_new_piece :: "watch \<Rightarrow> watch" where
  "tetris_spawn_new_piece st =
     (let (n, st1) = rng1_int 7 (st\<lparr>tetris_current_type := tetris_next_type st\<rparr>);
          st2 = st1\<lparr>tetris_next_type := n, tetris_piece_x := 3, tetris_piece_y := 0\<rparr>;
          st3 = st2\<lparr>tetris_current_piece := tetris_pieces ! nat (tetris_current_type st2)\<rparr>
      in if \<not> tetris_can_place_piece st3 (tetris_piece_x st3) (tetris_piece_y st3)
                (tetris_current_piece st3) then
           (let st4 = st3\<lparr>game_over := True\<rparr>
            in if game_score st4 > high_scores st4 ! 1
               then st4\<lparr>high_scores := (high_scores st4)[1 := game_score st4]\<rparr> else st4)
         else st3)"

text \<open>
  \<^verbatim>\<open>now - tetris_last_drop > tetris_drop_speed\<close> compares an unsigned 32-bit difference
  with an \<open>int\<close>, which C converts to unsigned.
\<close>

definition update_tetris :: "u32 \<Rightarrow> watch \<Rightarrow> watch" where
  "update_tetris now st =
     (if game_over st then st
      else if now - tetris_last_drop st > word_of_int (tetris_drop_speed st) then
        (let st1 = st\<lparr>tetris_last_drop := now\<rparr>
         in if tetris_can_place_piece st1 (tetris_piece_x st1) (tetris_piece_y st1 + 1)
                 (tetris_current_piece st1) then
              st1\<lparr>tetris_piece_y := tetris_piece_y st1 + 1\<rparr>
            else tetris_spawn_new_piece (tetris_clear_lines (tetris_place_piece st1)))
      else st)"


section \<open>Snake\<close>

definition SNAKE_MAX_LENGTH :: int where "SNAKE_MAX_LENGTH = 100"
definition SNAKE_GRID_W :: int where "SNAKE_GRID_W = 20"
definition SNAKE_GRID_H :: int where "SNAKE_GRID_H = 30"

text \<open>
  \<open>snake_x\<close> and \<open>snake_y\<close> are arrays of \<open>SNAKE_MAX_LENGTH\<close> cells; the first
  \<open>snake_length\<close> of them are the segments, head first.
\<close>

definition snake_check_collision :: "int \<Rightarrow> int \<Rightarrow> watch \<Rightarrow> bool" where
  "snake_check_collision x y st =
     (if x < 0 \<or> x \<ge> SNAKE_GRID_W \<or> y < 0 \<or> y \<ge> SNAKE_GRID_H then True
      else list_ex (\<lambda>i. snake_x st ! i = x \<and> snake_y st ! i = y) [0..<nat (snake_length st)])"

text \<open>
  The two food loops are \<^verbatim>\<open>do { ... } while (...)\<close> with no bound on the number of
  rounds: a run that never leaves the loop is the value \<open>None\<close>.
\<close>

partial_function (option) init_snake_food :: "watch \<Rightarrow> watch option" where
  "init_snake_food st =
     (let rx = rng_int 2 (SNAKE_GRID_W - 2) st;
          ry = rng_int 2 (SNAKE_GRID_H - 2) (snd rx);
          st1 = (snd ry)\<lparr>snake_food_x := fst rx, snake_food_y := fst ry\<rparr>
      in if (snake_food_x st1 = snake_x st1 ! 0 \<and> snake_food_y st1 = snake_y st1 ! 0)
            \<and> snake_food_x st1 < SNAKE_GRID_W \<and> snake_food_y st1 < SNAKE_GRID_H
         then init_snake_food st1 else Some st1)"

fun init_segments :: "nat list \<Rightarrow> int \<Rightarrow> int \<Rightarrow> watch \<Rightarrow> watch" where
  "init_segments [] start_x start_y st = st"
| "init_segments (i # is) start_x start_y st =
     init_segments is start_x start_y
       (st\<lparr>snake_x := (snake_x st)[i := start_x - int i],
           snake_y := (snake_y st)[i := start_y]\<rparr>)"

definition init_snake :: "u32 \<Rightarrow> watch \<Rightarrow> watch option" where
  "init_snake now st =
     (let st1 = st\<lparr>game_score := 0, game_over := False, snake_length := 4, snake_dir := 0,
                    snake_speed := 300, snake_last_move := now\<rparr>;
          start_x = max 4 (SNAKE_GRID_W div 2);
          start_y = max 4 (SNAKE_GRID_H div 2);
          st2 = init_segments [0..<nat (min (snake_length st1) SNAKE_MAX_LENGTH)]
                  start_x start_y st1
      in init_snake_food st2)"

partial_function (option) snake_place_food :: "watch \<Rightarrow> watch option" where
  "snake_place_food st =
     (let rx = rng1_int SNAKE_GRID_W st;
          ry = rng1_int SNAKE_GRID_H (snd rx);
          st1 = (snd ry)\<lparr>snake_food_x := fst rx, snake_food_y := fst ry\<rparr>
      in if snake_check_collision (snake_food_x st1) (snake_food_y st1) st1
         then snake_place_food st1 else Some st1)"

text \<open>
  The loop \<^verbatim>\<open>for (i = snake_length - 1; i > 0; i--)\<close> that moves every segment one
  place towards the tail; \<open>move_body n\<close> is the loop at \<open>i = n\<close>.
\<close>

fun move_body :: "nat \<Rightarrow> watch \<Rightarrow> watch" where
  "move_body 0 st = st"
| "move_body (Suc i) st =
     move_body i (st\<lparr>snake_x := (snake_x st)[Suc i := snake_x st ! i],
                     snake_y := (snake_y st)[Suc i := snake_y st ! i]\<rparr>)"

text \<open>
  \<open>update_snake\<close>, in the order of the source: the cell ahead of the head
  (\<open>snake_ahead_x\<close>, \<open>snake_ahead_y\<close>, the \<open>switch\<close> on \<open>snake_dir\<close>), the collision
  branch (\<open>snake_die\<close>), the food branch (\<open>snake_eat\<close>) and the move (\<open>snake_advance\<close>).
  Growing beyond \<open>SNAKE_MAX_LENGTH\<close> would index the arrays out of bounds, which has no
  defined result in C: the model returns \<open>None\<close> there. The last statement of the
  source decrements and increments \<open>snake_length\<close> and so changes nothing.
\<close>

definition snake_ahead_x :: "watch \<Rightarrow> int" where
  "snake_ahead_x st =
     snake_x st ! 0 + (if snake_dir st = 0 then 1 else if snake_dir st = 2 then - 1 else 0)"

definition snake_ahead_y :: "watch \<Rightarrow> int" where
  "snake_ahead_y st =
     snake_y st ! 0 + (if snake_dir st = 1 then 1 else if snake_dir st = 3 then - 1 else 0)"

definition snake_die :: "watch \<Rightarrow> watch" where
  "snake_die st =
     (let st1 = st\<lparr>game_over := True\<rparr>
      in if game_score st1 > high_scores st1 ! 2
         then st1\<lparr>high_scores := (high_scores st1)[2 := game_score st1]\<rparr> else st1)"

definition snake_eat :: "watch \<Rightarrow> watch option" where
  "snake_eat st =
     (let st1 = st\<lparr>game_score := game_score st + 10,
                    snake_length := snake_length st + 1,
                    snake_speed := max 100 (snake_speed st - 5)\<rparr>
      in if snake_length st1 > SNAKE_MAX_LENGTH then None else snake_place_food st1)"

definition snake_advance :: "int \<Rightarrow> int \<Rightarrow> watch \<Rightarrow> watch" where
  "snake_advance new_x new_y st =
     (let st1 = move_body (nat (snake_length st - 1)) st
      in st1\<lparr>snake_x := (snake_x st1)[0 := new_x], snake_y := (snake_y st1)[0 := new_y]\<rparr>)"

definition update_snake :: "u32 \<Rightarrow> watch \<Rightarrow> watch option" where
  "update_snake now st =
     (if game_over st then Some st
      else if now - snake_last_move st < word_of_int (snake_speed st) then Some st
      else
        (let st1 = st\<lparr>snake_last_move := now\<rparr>;
             new_x = snake_ahead_x st1;
             new_y = snake_ahead_y st1
         in if snake_check_collision new_x new_y st1 then Some (snake_die st1)
            else
              (let ate_food = (new_x = snake_food_x st1 \<and> new_y = snake_food_y st1)
               in case (if ate_food then snake_eat st1 else Some st1) of
                    None \<Rightarrow> None
                  | Some st2 \<Rightarrow> Some (snake_advance new_x new_y st2))))"


section \<open>Breakout\<close>

definition BRICK_ROWS :: int where "BRICK_ROWS = 6"
definition BRICK_COLS :: int where "BRICK_COLS = 8"
definition BRICK_W :: int where "BRICK_W = 25"
definition BRICK_H :: int where "BRICK_H = 12"

text \<open>
  \<open>paddle_y\<close>, \<open>paddle_w\<close>, \<open>paddle_h\<close> and \<open>ball_radius\<close> are globals that the source
  initialises and never assigns again.
\<close>

definition paddle_y :: int where "paddle_y = 400"
definition paddle_w :: int where "paddle_w = 60"
definition paddle_h :: int where "paddle_h = 8"
definition ball_radius :: int where "ball_radius = 4"

text \<open>
  \<open>init_breakout\<close>: the two loops set every brick and count them in
  \<open>bricks_remaining\<close>.
\<close>

definition init_breakout :: "watch \<Rightarrow> watch" where
  "init_breakout st =
     st\<lparr>game_score := 0, game_over := False,
        bricks := replicate (nat BRICK_ROWS) (replicate (nat BRICK_COLS) True),
        bricks_remaining := BRICK_ROWS * BRICK_COLS,
        ball_x := real_of_int (AMOLED_1IN8_WIDTH div 2),
        ball_y := 300,
        ball_dx := 2,
        ball_dy := - 3,
        paddle_x := real_of_int ((AMOLED_1IN8_WIDTH - paddle_w) div 2)\<rparr>"

text \<open>The test of the ball against the brick at \<open>(row, col)\<close>.\<close>

definition ball_meets_brick :: "watch \<Rightarrow> nat \<Rightarrow> nat \<Rightarrow> bool" where
  "ball_meets_brick st row col =
     (let brick_x = int col * (AMOLED_1IN8_WIDTH div BRICK_COLS);
          brick_y = 50 + int row * BRICK_H
      in ball_x st + real_of_int ball_radius \<ge> real_of_int brick_x
         \<and> ball_x st - real_of_int ball_radius \<le> real_of_int (brick_x + BRICK_W)
         \<and> ball_y st + real_of_int ball_radius \<ge> real_of_int brick_y
         \<and> ball_y st - real_of_int ball_radius \<le> real_of_int (brick_y + BRICK_H))"

text \<open>
  The body of the collision test: the brick goes, the score grows, the ball turns, and
  when no brick remains the board is set up again and the fresh velocity is scaled by
  \<open>1.2f\<close>.
\<close>

definition brick_hit :: "nat \<Rightarrow> nat \<Rightarrow> watch \<Rightarrow> watch" where
  "brick_hit row col st =
     (let st1 = st\<lparr>bricks := (bricks st)[row := (bricks st ! row)[col := False]],
                    bricks_remaining := bricks_remaining st - 1,
                    game_score := game_score st + 10,
                    ball_dy := - ball_dy st\<rparr>
      in if bricks_remaining st1 = 0 then
           (let st2 = init_breakout st1
            in st2\<lparr>ball_dx := ball_dx st2 * 1.2, ball_dy := ball_dy st2 * 1.2\<rparr>)
         else st1)"

text \<open>
  The inner loop over the columns of one row stops (\<open>break\<close>) at the first brick hit;
  the outer loop goes on with the next row.
\<close>

fun brick_cols :: "nat \<Rightarrow> nat list \<Rightarrow> watch \<Rightarrow> watch" where
  "brick_cols row [] st = st"
| "brick_cols row (col # cols) st =
     (if \<not> bricks st ! row ! col then brick_cols row cols st
      else if ball_meets_brick st row col then brick_hit row col st
      else brick_cols row cols st)"

definition brick_rows :: "watch \<Rightarrow> watch" where
  "brick_rows st = fold (\<lambda>row. brick_cols row [0..<nat BRICK_COLS]) [0..<nat BRICK_ROWS] st"

definition paddle_bounce :: "watch \<Rightarrow> watch" where
  "paddle_bounce st =
     (if ball_y st + real_of_int ball_radius \<ge> real_of_int paddle_y
         \<and> ball_y st - real_of_int ball_radius \<le> real_of_int (paddle_y + paddle_h)
         \<and> ball_x st \<ge> paddle_x st
         \<and> ball_x st \<le> paddle_x st + real_of_int paddle_w then
        (let st1 = st\<lparr>ball_dy := - \<bar>ball_dy st\<bar>\<rparr>;
             hit_pos = (ball_x st1 - paddle_x st1) / real_of_int paddle_w
         in st1\<lparr>ball_dx := (hit_pos - 0.5) * 4\<rparr>)
      else st)"

definition update_breakout :: "watch \<Rightarrow> watch" where
  "update_breakout st =
     (if game_over st then st
      else
        (let st1 = st\<lparr>ball_x := ball_x st + ball_dx st, ball_y := ball_y st + ball_dy st\<rparr>;
             st2 = (if ball_x st1 \<le> real_of_int ball_radius
                       \<or> ball_x st1 \<ge> real_of_int (AMOLED_1IN8_WIDTH - ball_radius)
                    then st1\<lparr>ball_dx := - ball_dx st1\<rparr> else st1);
             st3 = (if ball_y st2 \<le> real_of_int ball_radius
                    then st2\<lparr>ball_dy := - ball_dy st2\<rparr> else st2)
         in if ball_y st3 \<ge> real_of_int (AMOLED_1IN8_HEIGHT - ball_radius) then
              (let st4 = st3\<lparr>game_over := True\<rparr>
               in if game_score st4 > high_scores st4 ! 3
                  then st4\<lparr>high_scores := (high_scores st4)[3 := game_score st4]\<rparr>
                  else st4)
            else brick_rows (paddle_bounce st3)))"

text \<open>The Breakout branch of \<open>handle_touch\<close> while the game runs.\<close>

definition move_paddle :: "u16 \<Rightarrow> watch \<Rightarrow> watch" where
  "move_paddle tx st =
     (let st1 = st\<lparr>paddle_x := real_of_int (uint tx - paddle_w div 2)\<rparr>;
          st2 = (if paddle_x st1 < 0 then st1\<lparr>paddle_x := 0\<rparr> else st1)
      in if paddle_x st2 > real_of_int (AMOLED_1IN8_WIDTH - paddle_w)
         then st2\<lparr>paddle_x := real_of_int (AMOLED_1IN8_WIDTH - paddle_w)\<rparr> else st2)"


section \<open>Asteroids\<close>

text \<open>
  \<open>bullets\<close> is an array of 5 slots and \<open>asteroids\<close> one of 15; the loops of the source
  run over these literal bounds. A loop that updates every slot independently of the
  others is a \<open>map\<close>.
\<close>

definition spawn_asteroid :: "nat \<Rightarrow> watch \<Rightarrow> watch" where
  "spawn_asteroid i st =
     (let (rx, s1) = rng_int 50 318 st;
          (ry, s2) = rng_int 50 430 s1;
          (rdx, s3) = rng_int 0 100 s2;
          (rdy, s4) = rng_int 0 100 s3;
          (ra, s5) = rng_int 0 360 s4;
          (rs, s6) = rng_int 0 100 s5
      in s6\<lparr>asteroids := (asteroids s6)[i := (asteroids s6 ! i)
           \<lparr>a_active := True, a_size := 2,
            a_x := real_of_int rx, a_y := real_of_int ry,
            a_dx := real_of_int rdx / 50 - 1, a_dy := real_of_int rdy / 50 - 1,
            a_angle := real_of_int ra, a_spin := real_of_int rs / 100 - 0.5\<rparr>]\<rparr>)"

definition init_asteroids :: "watch \<Rightarrow> watch" where
  "init_asteroids st =
     (let st1 = st\<lparr>game_score := 0, game_over := False,
                    ship := \<lparr>s_x = 184, s_y = 260, s_angle = - 90, s_dx = 0, s_dy = 0,
                             s_alive = True\<rparr>,
                    bullets := map (\<lambda>b. b\<lparr>b_active := False\<rparr>) (bullets st),
                    asteroids := map (\<lambda>a. a\<lparr>a_active := False\<rparr>) (asteroids st)\<rparr>;
          num_asteroids = min (3 + asteroids_level st1) 10
      in fold spawn_asteroid [0..<nat num_asteroids] st1)"

text \<open>
  The two tests \<^verbatim>\<open>if (v < 0) v = limit; if (v > limit) v = 0;\<close> that wrap a coordinate
  around the screen.
\<close>

definition wrap :: "real \<Rightarrow> int \<Rightarrow> real" where
  "wrap v limit =
     (let v1 = (if v < 0 then real_of_int limit else v)
      in if v1 > real_of_int limit then 0 else v1)"

definition move_ship :: "Ship \<Rightarrow> Ship" where
  "move_ship s =
     (let s1 = s\<lparr>s_dx := s_dx s * 0.98, s_dy := s_dy s * 0.98\<rparr>;
          s2 = s1\<lparr>s_x := s_x s1 + s_dx s1, s_y := s_y s1 + s_dy s1\<rparr>
      in s2\<lparr>s_x := wrap (s_x s2) AMOLED_1IN8_WIDTH, s_y := wrap (s_y s2) AMOLED_1IN8_HEIGHT\<rparr>)"

definition move_bullet :: "u32 \<Rightarrow> Bullet \<Rightarrow> Bullet" where
  "move_bullet now b =
     (if \<not> b_active b then b
      else
        (let b1 = b\<lparr>b_x := b_x b + b_dx b, b_y := b_y b + b_dy b\<rparr>
         in if b_x b1 < 0 \<or> b_x b1 > real_of_int AMOLED_1IN8_WIDTH
               \<or> b_y b1 < 0 \<or> b_y b1 > real_of_int AMOLED_1IN8_HEIGHT
               \<or> now - b_fired_time b1 > 2000
            then b1\<lparr>b_active := False\<rparr> else b1))"

definition move_asteroid :: "Asteroid \<Rightarrow> Asteroid" where
  "move_asteroid a =
     (if \<not> a_active a then a
      else
        (let a1 = a\<lparr>a_x := a_x a + a_dx a, a_y := a_y a + a_dy a,
                     a_angle := a_angle a + a_spin a\<rparr>
         in a1\<lparr>a_x := wrap (a_x a1) AMOLED_1IN8_WIDTH,
               a_y := wrap (a_y a1) AMOLED_1IN8_HEIGHT\<rparr>))"

definition asteroid_radius :: "int \<Rightarrow> int" where
  "asteroid_radius sz = (if sz = 2 then 20 else if sz = 1 then 12 else 6)"

definition bullet_in_asteroid :: "watch \<Rightarrow> nat \<Rightarrow> nat \<Rightarrow> bool" where
  "bullet_in_asteroid st b a =
     (let ar = asteroid_radius (a_size (asteroids st ! a));
          dx = b_x (bullets st ! b) - a_x (asteroids st ! a);
          dy = b_y (bullets st ! b) - a_y (asteroids st ! a);
          dist = sqrt (dx * dx + dy * dy)
      in dist < real_of_int ar)"

text \<open>
  One child of a split: slot \<open>i\<close> receives a copy of slot \<open>a\<close> as it is at that moment,
  then its size, position, velocity and liveness are assigned in the order of the source.
\<close>

definition spawn_child :: "nat \<Rightarrow> nat \<Rightarrow> int \<Rightarrow> real \<Rightarrow> real \<Rightarrow> watch \<Rightarrow> watch" where
  "spawn_child i a old_size old_x old_y st =
     (let s0 = st\<lparr>asteroids := (asteroids st)[i := asteroids st ! a]\<rparr>;
          s1 = s0\<lparr>asteroids := (asteroids s0)[i := (asteroids s0 ! i)\<lparr>a_size := old_size - 1\<rparr>]\<rparr>;
          (rx, s2) = rng_int (- 10) 10 s1;
          s3 = s2\<lparr>asteroids := (asteroids s2)[i := (asteroids s2 ! i)
                 \<lparr>a_x := old_x + real_of_int rx\<rparr>]\<rparr>;
          (ry, s4) = rng_int (- 10) 10 s3;
          s5 = s4\<lparr>asteroids := (asteroids s4)[i := (asteroids s4 ! i)
                 \<lparr>a_y := old_y + real_of_int ry\<rparr>]\<rparr>;
          (rdx, s6) = rng1_int 100 s5;
          s7 = s6\<lparr>asteroids := (asteroids s6)[i := (asteroids s6 ! i)
                 \<lparr>a_dx := - a_dx (asteroids s6 ! a) + real_of_int rdx / 100\<rparr>]\<rparr>;
          (rdy, s8) = rng1_int 100 s7;
          s9 = s8\<lparr>asteroids := (asteroids s8)[i := (asteroids s8 ! i)
                 \<lparr>a_dy := - a_dy (asteroids s8 ! a) + real_of_int rdy / 100\<rparr>]\<rparr>
      in s9\<lparr>asteroids := (asteroids s9)[i := (asteroids s9 ! i)\<lparr>a_active := True\<rparr>]\<rparr>)"

text \<open>
  \<^verbatim>\<open>for (int i = 0; i < 15 && split_count < 2; i++)\<close>: the search for free slots.
\<close>

fun split_scan :: "nat list \<Rightarrow> nat \<Rightarrow> nat \<Rightarrow> int \<Rightarrow> real \<Rightarrow> real \<Rightarrow> watch \<Rightarrow> watch" where
  "split_scan [] split_count a old_size old_x old_y st = st"
| "split_scan (i # is) split_count a old_size old_x old_y st =
     (if split_count < 2 then
        (if \<not> a_active (asteroids st ! i) then
           split_scan is (split_count + 1) a old_size old_x old_y
             (spawn_child i a old_size old_x old_y st)
         else split_scan is split_count a old_size old_x old_y st)
      else st)"

text \<open>The body of \<^verbatim>\<open>if (dist < ar)\<close>: bullet \<open>b\<close> has hit asteroid \<open>a\<close>.\<close>

definition asteroid_hit :: "nat \<Rightarrow> nat \<Rightarrow> watch \<Rightarrow> watch" where
  "asteroid_hit b a st =
     (let st1 = st\<lparr>bullets := (bullets st)[b := (bullets st ! b)\<lparr>b_active := False\<rparr>]\<rparr>;
          old_size = a_size (asteroids st1 ! a);
          old_x = a_x (asteroids st1 ! a);
          old_y = a_y (asteroids st1 ! a);
          st2 = st1\<lparr>asteroids := (asteroids st1)[a := (asteroids st1 ! a)\<lparr>a_active := False\<rparr>]\<rparr>;
          st3 = st2\<lparr>game_score := game_score st2 + (old_size + 1) * 10\<rparr>
      in if old_size > 0 then split_scan [0..<15] 0 a old_size old_x old_y st3 else st3)"

text \<open>
  The loop over the asteroids for one bullet, with its \<open>continue\<close> and \<open>break\<close>, and
  the loop over the bullets around it.
\<close>

fun scan_asteroids :: "nat \<Rightarrow> nat list \<Rightarrow> watch \<Rightarrow> watch" where
  "scan_asteroids b [] st = st"
| "scan_asteroids b (a # rest) st =
     (if \<not> a_active (asteroids st ! a) then scan_asteroids b rest st
      else if bullet_in_asteroid st b a then asteroid_hit b a st
      else scan_asteroids b rest st)"

definition bullet_collisions :: "watch \<Rightarrow> watch" where
  "bullet_collisions st =
     fold (\<lambda>b s. if \<not> b_active (bullets s ! b) then s else scan_asteroids b [0..<15] s)
       [0..<5] st"

definition ship_in_asteroid :: "watch \<Rightarrow> nat \<Rightarrow> bool" where
  "ship_in_asteroid st a =
     (let ar = asteroid_radius (a_size (asteroids st ! a));
          dx = s_x (ship st) - a_x (asteroids st ! a);
          dy = s_y (ship st) - a_y (asteroids st ! a);
          dist = sqrt (dx * dx + dy * dy)
      in dist < real_of_int (ar + 10))"

fun ship_collisions :: "nat list \<Rightarrow> watch \<Rightarrow> watch" where
  "ship_collisions [] st = st"
| "ship_collisions (a # rest) st =
     (if \<not> a_active (asteroids st ! a) then ship_collisions rest st
      else if ship_in_asteroid st a then
        (let st1 = st\<lparr>ship := (ship st)\<lparr>s_alive := False\<rparr>, game_over := True\<rparr>
         in if game_score st1 > high_scores st1 ! 0
            then st1\<lparr>high_scores := (high_scores st1)[0 := game_score st1]\<rparr> else st1)
      else ship_collisions rest st)"

definition update_asteroids :: "u32 \<Rightarrow> watch \<Rightarrow> watch" where
  "update_asteroids now st =
     (if game_over st \<or> \<not> s_alive (ship st) then st
      else if \<not> list_ex (\<lambda>i. a_active (asteroids st ! i)) [0..<15] then
        init_asteroids (st\<lparr>asteroids_level := asteroids_level st + 1\<rparr>)
      else
        (let st1 = st\<lparr>ship := move_ship (ship st)\<rparr>;
             st2 = st1\<lparr>bullets := map (move_bullet now) (bullets st1)\<rparr>;
             st3 = st2\<lparr>asteroids := map move_asteroid (asteroids st2)\<rparr>
         in ship_collisions [0..<15] (bullet_collisions st3)))"

text \<open>
  The Asteroids branch of \<open>handle_touch\<close> while the game runs: the left and right
  thirds of the screen turn the ship, the middle fires from the first free bullet slot.
\<close>

fun fire_bullet :: "nat list \<Rightarrow> u32 \<Rightarrow> watch \<Rightarrow> watch" where
  "fire_bullet [] now st = st"
| "fire_bullet (i # is) now st =
     (if \<not> b_active (bullets st ! i) then
        (let rad = s_angle (ship st) * 3.14159 / 180
         in st\<lparr>bullets := (bullets st)[i :=
              \<lparr>b_x = s_x (ship st), b_y = s_y (ship st),
               b_dx = 5 * cos rad, b_dy = 5 * sin rad,
               b_active = True, b_fired_time = now\<rparr>]\<rparr>)
      else fire_bullet is now st)"

definition steer_ship :: "u16 \<Rightarrow> u32 \<Rightarrow> watch \<Rightarrow> watch" where
  "steer_ship tx now st =
     (if uint tx < AMOLED_1IN8_WIDTH div 3 then
        st\<lparr>ship := (ship st)\<lparr>s_angle := s_angle (ship st) - 15\<rparr>\<rparr>
      else if uint tx > (AMOLED_1IN8_WIDTH * 2) div 3 then
        st\<lparr>ship := (ship st)\<lparr>s_angle := s_angle (ship st) + 15\<rparr>\<rparr>
      else fire_bullet [0..<5] now st)"


section \<open>Buttons, touch and the main loop\<close>

definition MENU_COUNT :: int where "MENU_COUNT = 5"
definition GAMES_COUNT :: int where "GAMES_COUNT = 2"
definition SETTINGS_COUNT :: int where "SETTINGS_COUNT = 4"

definition open_watchface :: "watch \<Rightarrow> watch" where
  "open_watchface st = st\<lparr>current_screen := SCR_WATCHFACE\<rparr>"

definition open_menu :: "watch \<Rightarrow> watch" where
  "open_menu st = st\<lparr>current_screen := SCR_MENU\<rparr>"

text \<open>
  \<open>process_button\<close>, screen by screen as in the source. The clock fields are
  \<open>uint8_t\<close>: the arithmetic is done in \<open>int\<close> and the result stored back.
\<close>

definition button_set_time :: "VButton \<Rightarrow> u32 \<Rightarrow> watch \<Rightarrow> watch" where
  "button_set_time b now st =
     (let st1 = st\<lparr>last_time_button_press := now\<rparr>
      in if b = BTN_UP then
           (if set_time_field st1 = 0
            then st1\<lparr>clock_h := word_of_int ((uint (clock_h st1) + 1) mod 24)\<rparr>
            else st1\<lparr>clock_m := word_of_int ((uint (clock_m st1) + 1) mod 60)\<rparr>)
           \<lparr>set_time_dirty := True\<rparr>
         else if b = BTN_DOWN then
           (if set_time_field st1 = 0
            then st1\<lparr>clock_h := (if clock_h st1 = 0 then 23 else clock_h st1 - 1)\<rparr>
            else st1\<lparr>clock_m := (if clock_m st1 = 0 then 59 else clock_m st1 - 1)\<rparr>)
           \<lparr>set_time_dirty := True\<rparr>
         else if b = BTN_SELECT then st1\<lparr>set_time_field := 1 - set_time_field st1\<rparr>
         else st1\<lparr>current_screen := SCR_SETTINGS_MENU\<rparr>)"

definition button_set_date :: "VButton \<Rightarrow> u32 \<Rightarrow> watch \<Rightarrow> watch" where
  "button_set_date b now st =
     (let st1 = st\<lparr>last_date_button_press := now\<rparr>
      in if b = BTN_UP then
           (if set_date_field st1 = 0
            then st1\<lparr>day := word_of_int ((uint (day st1) mod 31) + 1)\<rparr>
            else if set_date_field st1 = 1
            then st1\<lparr>month := word_of_int ((uint (month st1) mod 12) + 1)\<rparr>
            else st1\<lparr>year := year st1 + 1\<rparr>)
           \<lparr>set_date_dirty := True\<rparr>
         else if b = BTN_DOWN then
           (if set_date_field st1 = 0
            then st1\<lparr>day := (if day st1 = 1 then 31 else day st1 - 1)\<rparr>
            else if set_date_field st1 = 1
            then st1\<lparr>month := (if month st1 = 1 then 12 else month st1 - 1)\<rparr>
            else st1\<lparr>year := year st1 - 1\<rparr>)
           \<lparr>set_date_dirty := True\<rparr>
         else if b = BTN_SELECT then
           st1\<lparr>set_date_field := (set_date_field st1 + 1) mod 3\<rparr>
         else st1\<lparr>current_screen := SCR_SETTINGS_MENU\<rparr>)"

definition process_button :: "VButton \<Rightarrow> u32 \<Rightarrow> watch \<Rightarrow> watch" where
  "process_button b now st =
     (case current_screen st of
        SCR_WATCHFACE \<Rightarrow>
          (if b = BTN_UP then st\<lparr>current_screen := SCR_TL_FUTURE\<rparr>
           else if b = BTN_DOWN then st\<lparr>current_screen := SCR_TL_PAST\<rparr>
           else if b = BTN_SELECT then open_menu st
           else st)
      | SCR_MENU \<Rightarrow>
          (if b = BTN_UP \<and> menu_sel st > 0 then open_menu (st\<lparr>menu_sel := menu_sel st - 1\<rparr>)
           else if b = BTN_DOWN \<and> menu_sel st < MENU_COUNT - 1
           then open_menu (st\<lparr>menu_sel := menu_sel st + 1\<rparr>)
           else if b = BTN_SELECT then
             (if menu_sel st = 3 then st\<lparr>current_screen := SCR_GAMES_MENU\<rparr>
              else if menu_sel st = 4 then st\<lparr>current_screen := SCR_SETTINGS_MENU\<rparr>
              else st)
           else if b = BTN_BACK then open_watchface st
           else st)
      | SCR_GAMES_MENU \<Rightarrow>
          (if b = BTN_UP \<and> games_sel st > 0 then st\<lparr>games_sel := games_sel st - 1\<rparr>
           else if b = BTN_DOWN \<and> games_sel st < GAMES_COUNT - 1
           then st\<lparr>games_sel := games_sel st + 1\<rparr>
           else if b = BTN_SELECT then
             (if games_sel st = 0
              then st\<lparr>current_screen := SCR_GAME_ARCADE, current_game := GAME_MENU\<rparr>
              else if games_sel st = 1 then st\<lparr>current_screen := SCR_GAME_TAMAGOTCHI\<rparr>
              else st)
           else if b = BTN_BACK then open_menu st
           else st)
      | SCR_GAME_ARCADE \<Rightarrow>
          (if current_game st = GAME_MENU then
             (if b = BTN_BACK then st\<lparr>current_screen := SCR_GAMES_MENU\<rparr> else st)
           else if current_game st = ASTEROIDS \<or> current_game st = TETRIS
                   \<or> current_game st = SNAKE \<or> current_game st = BREAKOUT then
             (if b = BTN_BACK then st\<lparr>current_game := GAME_MENU\<rparr> else st)
           else st)
      | SCR_GAME_TAMAGOTCHI \<Rightarrow>
          (if b = BTN_BACK then st\<lparr>current_screen := SCR_GAMES_MENU\<rparr> else st)
      | SCR_SETTINGS_MENU \<Rightarrow>
          (if b = BTN_UP \<and> settings_sel st > 0
           then st\<lparr>settings_sel := settings_sel st - 1\<rparr>
           else if b = BTN_DOWN \<and> settings_sel st < SETTINGS_COUNT - 1
           then st\<lparr>settings_sel := settings_sel st + 1\<rparr>
           else if b = BTN_SELECT then
             (if settings_sel st = 0
              then st\<lparr>current_screen := SCR_SET_TIME, set_time_field := 0,
                      set_time_dirty := False\<rparr>
              else if settings_sel st = 1
              then st\<lparr>current_screen := SCR_SET_DATE, set_date_field := 0,
                      set_date_dirty := False\<rparr>
              else if settings_sel st = 3 then st\<lparr>current_screen := SCR_SETTINGS_ABOUT\<rparr>
              else st)
           else if b = BTN_BACK then open_menu st
           else st)
      | SCR_SET_TIME \<Rightarrow> button_set_time b now st
      | SCR_SET_DATE \<Rightarrow> button_set_date b now st
      | SCR_SETTINGS_ABOUT \<Rightarrow>
          (if b = BTN_BACK then st\<lparr>current_screen := SCR_SETTINGS_MENU\<rparr> else st)
      | SCR_TL_PAST \<Rightarrow> (if b = BTN_BACK then open_watchface st else st)
      | SCR_TL_FUTURE \<Rightarrow> (if b = BTN_BACK then open_watchface st else st)
      | SCR_APP \<Rightarrow> st)"

text \<open>
  \<open>handle_touch\<close> from the point where a touch \<open>(tx, ty)\<close> has passed the debounce and
  has been read from the controller. The coordinates are \<open>uint16_t\<close> and are compared
  as \<open>int\<close>.
\<close>

definition touch_game_menu :: "u16 \<Rightarrow> u32 \<Rightarrow> watch \<Rightarrow> watch option" where
  "touch_game_menu ty now st =
     (let y = uint ty
      in if y \<ge> 120 \<and> y \<le> 180 then
           Some (init_asteroids (st\<lparr>current_game := ASTEROIDS, asteroids_level := 1\<rparr>))
         else if y \<ge> 200 \<and> y \<le> 260 then
           Some (init_tetris now (st\<lparr>current_game := TETRIS\<rparr>))
         else if y \<ge> 280 \<and> y \<le> 340 then
           init_snake now (st\<lparr>current_game := SNAKE\<rparr>)
         else if y \<ge> 360 \<and> y \<le> 420 then
           Some (init_breakout (st\<lparr>current_game := BREAKOUT\<rparr>))
         else Some st)"

definition touch_tetris :: "u16 \<Rightarrow> watch \<Rightarrow> watch" where
  "touch_tetris tx st =
     (let left = uint tx < 123;
          middle = uint tx \<ge> 123 \<and> uint tx \<le> 245;
          right = uint tx > 245
      in if left then
           (if tetris_can_place_piece st (tetris_piece_x st - 1) (tetris_piece_y st)
                 (tetris_current_piece st)
            then st\<lparr>tetris_piece_x := tetris_piece_x st - 1\<rparr> else st)
         else if middle then tetris_rotate_piece st
         else if right then
           (if tetris_can_place_piece st (tetris_piece_x st + 1) (tetris_piece_y st)
                 (tetris_current_piece st)
            then st\<lparr>tetris_piece_x := tetris_piece_x st + 1\<rparr> else st)
         else st)"

definition touch_snake :: "u16 \<Rightarrow> u16 \<Rightarrow> watch \<Rightarrow> watch" where
  "touch_snake tx ty st =
     (if uint tx < AMOLED_1IN8_WIDTH div 3 then st\<lparr>snake_dir := 2\<rparr>
      else if uint tx > (AMOLED_1IN8_WIDTH * 2) div 3 then st\<lparr>snake_dir := 0\<rparr>
      else if uint ty < AMOLED_1IN8_HEIGHT div 2 then st\<lparr>snake_dir := 3\<rparr>
      else st\<lparr>snake_dir := 1\<rparr>)"

definition touch_arcade :: "u16 \<Rightarrow> u16 \<Rightarrow> u32 \<Rightarrow> watch \<Rightarrow> watch option" where
  "touch_arcade tx ty now st =
     (case current_game st of
        GAME_MENU \<Rightarrow> touch_game_menu ty now st
      | ASTEROIDS \<Rightarrow>
          Some (if game_over st then init_asteroids (st\<lparr>asteroids_level := 1\<rparr>)
                else steer_ship tx now st)
      | TETRIS \<Rightarrow> Some (if game_over st then init_tetris now st else touch_tetris tx st)
      | SNAKE \<Rightarrow> (if game_over st then init_snake now st else Some (touch_snake tx ty st))
      | BREAKOUT \<Rightarrow> Some (if game_over st then init_breakout st else move_paddle tx st))"

definition handle_touch :: "u16 \<Rightarrow> u16 \<Rightarrow> u32 \<Rightarrow> watch \<Rightarrow> watch option" where
  "handle_touch tx ty now st =
     (if current_screen st = SCR_GAME_ARCADE then touch_arcade tx ty now st
      else if current_screen st = SCR_GAME_TAMAGOTCHI then Some (touch_tamagotchi tx ty st)
      else
        (let H = AMOLED_1IN8_HEIGHT
         in Some (if uint ty < H div 3 then process_button BTN_UP now st
                  else if uint ty > (H * 2) div 3 then process_button BTN_DOWN now st
                  else process_button BTN_SELECT now st)))"

text \<open>The dispatch of \<open>loop\<close> to the running game.\<close>

definition update_game :: "u32 \<Rightarrow> watch \<Rightarrow> watch option" where
  "update_game now st =
     (if current_game st = ASTEROIDS then Some (update_asteroids now st)
      else if current_game st = TETRIS then Some (update_tetris now st)
      else if current_game st = SNAKE then update_snake now st
      else if current_game st = BREAKOUT then Some (update_breakout st)
      else Some st)"

text \<open>
  One pass of \<open>loop\<close>. Its inputs are the touch point read in this pass, if any,
  whether the debounced BACK button went high in this pass, and the clock sample. The
  clock tick, the backlight dimming, the tap detection and the sensor readings of the
  source assign none of the variables of the games or the pet and are not modelled.
\<close>

definition loop :: "(u16 \<times> u16) option \<Rightarrow> bool \<Rightarrow> u32 \<Rightarrow> watch \<Rightarrow> watch option" where
  "loop touch back now st =
     (case (case touch of None \<Rightarrow> Some st | Some (tx, ty) \<Rightarrow> handle_touch tx ty now st) of
        None \<Rightarrow> None
      | Some st1 \<Rightarrow>
          (let st2 = (if back then process_button BTN_BACK now st1 else st1)
           in case (if current_screen st2 = SCR_GAME_ARCADE \<and> now - last_game_update st2 > 50
                    then update_game now (st2\<lparr>last_game_update := now\<rparr>)
                    else Some st2) of
                None \<Rightarrow> None
              | Some st3 \<Rightarrow>
                  Some (if current_screen st3 = SCR_GAME_TAMAGOTCHI
                        then loop_tamagotchi now st3 else st3)))"

text \<open>
  \<open>power_on\<close> is the state at reset: the initialisers of the globals, zero where
  the source gives none. \<open>setup_watch\<close> is what the start-up routine of the source
  does to the modelled variables: it seeds the generator with the clock, initialises the
  pet and opens the watch face.
\<close>

definition power_on :: watch where
  "power_on =
     \<lparr>rng_seed = 1, current_screen = SCR_WATCHFACE,
      clock_h = 12, clock_m = 0, day = 23, month = 10, year = 2025,
      menu_sel = 0, games_sel = 0, settings_sel = 0,
      set_time_field = 0, set_time_dirty = False, last_time_button_press = 0,
      set_date_field = 0, set_date_dirty = False, last_date_button_press = 0,
      current_game = GAME_MENU, game_over = False, game_score = 0,
      high_scores = [0, 0, 0, 0],
      ship = \<lparr>s_x = 0, s_y = 0, s_angle = 0, s_dx = 0, s_dy = 0, s_alive = False\<rparr>,
      bullets = replicate 5
        \<lparr>b_x = 0, b_y = 0, b_dx = 0, b_dy = 0, b_active = False, b_fired_time = 0\<rparr>,
      asteroids = replicate 15
        \<lparr>a_x = 0, a_y = 0, a_dx = 0, a_dy = 0, a_angle = 0, a_spin = 0, a_size = 0,
         a_active = False\<rparr>,
      asteroids_level = 1,
      tetris_grid = replicate (nat GRID_H) empty_row,
      tetris_current_piece = replicate 4 (replicate 4 0),
      tetris_current_type = 0, tetris_next_type = 0,
      tetris_piece_x = 3, tetris_piece_y = 0,
      tetris_last_drop = 0, tetris_drop_speed = 500, tetris_lines_cleared = 0,
      tetris_piece_placed = False,
      snake_x = replicate (nat SNAKE_MAX_LENGTH) 0,
      snake_y = replicate (nat SNAKE_MAX_LENGTH) 0,
      snake_length = 4, snake_dir = 0, snake_food_x = 0, snake_food_y = 0,
      snake_last_move = 0, snake_speed = 300,
      bricks = replicate (nat BRICK_ROWS) (replicate (nat BRICK_COLS) False),
      ball_x = 0, ball_y = 0, ball_dx = 0, ball_dy = 0, paddle_x = 0,
      bricks_remaining = 0,
      pet = \<lparr>name = [], stage = EGG, mood = HAPPY,
             hunger = 0, happiness = 0, health = 0, cleanliness = 0,
             age_hours = 0, age_days = 0, is_sleeping = False, needs_cleanup = False,
             last_poop_time = 0, petting_count = 0,
             last_creature_move = 0, last_eye_move = 0,
             creature_offset_x = 0, creature_offset_y = 0,
             eye_offset_x = 0, eye_offset_y = 0\<rparr>,
      last_game_update = 0, last_stat_decay = 0, last_redraw = 0\<rparr>"

definition setup_watch :: "u32 \<Rightarrow> watch" where
  "setup_watch now = open_watchface (init_pet now (seed_rng now power_on))"


section \<open>Notions used to state the properties\<close>

text \<open>
  \<open>ctx\<close> is the part of the state that no game writes: the screen, the selected game
  and the pet.
\<close>

definition ctx :: "watch \<Rightarrow> Screen \<times> GameState \<times> Tamagotchi" where
  "ctx st = (current_screen st, current_game st, pet st)"


text \<open>
  The four stats of the pet lie in \<open>[0, 100]\<close>. They are unsigned bytes, so the lower
  bound is the type's; it is written out to show the whole range.
\<close>

definition stat_in_range :: "u8 \<Rightarrow> bool" where
  "stat_in_range v = (0 \<le> uint v \<and> uint v \<le> 100)"

definition pet_stats_ok :: "Tamagotchi \<Rightarrow> bool" where
  "pet_stats_ok p =
     (stat_in_range (hunger p) \<and> stat_in_range (happiness p)
      \<and> stat_in_range (health p) \<and> stat_in_range (cleanliness p))"

text \<open>
  A run of the firmware: \<open>loop\<close> passes, one per input, from a given state. The run
  has no result when a pass has none.
\<close>

type_synonym loop_input = "(u16 \<times> u16) option \<times> bool \<times> u32"

fun run_loop :: "loop_input list \<Rightarrow> watch \<Rightarrow> watch option" where
  "run_loop [] st = Some st"
| "run_loop ((touch, back, now) # inputs) st =
     (case loop touch back now st of None \<Rightarrow> None | Some st' \<Rightarrow> run_loop inputs st')"

text \<open>
  A sample run from start-up: Select on the watch face, three times Down and Select in
  the menu (Games), Down and Select in the games menu (Tamagotchi), a touch on the egg,
  a touch on the Feed button, and a pass 40 seconds later, when the decay is due.
\<close>

definition pet_demo :: "loop_input list" where
  "pet_demo =
     [(Some (100, 200), False, 100),
      (Some (100, 400), False, 200),
      (Some (100, 400), False, 300),
      (Some (100, 400), False, 400),
      (Some (100, 200), False, 500),
      (Some (100, 400), False, 600),
      (Some (100, 200), False, 700),
      (Some (100, 200), False, 800),
      (Some (50, 420), False, 900),
      (None, False, 40000)]"




text \<open>
  A row of the Tetris grid is complete when none of its cells is 0; a grid is well
  formed when it has \<open>GRID_H\<close> rows of \<open>GRID_W\<close> cells, as the array of the source has.
\<close>

definition complete_row :: "int list \<Rightarrow> bool" where
  "complete_row r = list_all (\<lambda>c. c \<noteq> 0) r"

definition rows_ok :: "int list list \<Rightarrow> bool" where
  "rows_ok g = list_all (\<lambda>r. length r = nat GRID_W) g"

definition grid_ok :: "int list list \<Rightarrow> bool" where
  "grid_ok g = (length g = nat GRID_H \<and> rows_ok g)"

text \<open>
  A Tetris position with complete rows 16 and 18, partly filled rows 17 and 19, nine
  lines counted since the last speed-up and a score of 700.
\<close>

definition lines_demo :: watch where
  "lines_demo = power_on
     \<lparr>tetris_grid := replicate 16 empty_row
        @ [replicate 10 3, [1,1,0,0,0,0,0,0,0,2], replicate 10 5, [0,4,4,0,0,0,0,0,0,0]],
      tetris_lines_cleared := 9, game_score := 700\<rparr>"

text \<open>
  The arcade menu with the generator in state 25045, from which Snake is started in the
  samples below; \<open>snake_begun\<close> is the state after \<open>init_snake\<close> there, written out.
\<close>

definition snake_start :: watch where
  "snake_start = power_on\<lparr>rng_seed := 25045, current_screen := SCR_GAME_ARCADE,
                            current_game := SNAKE\<rparr>"

definition snake_begun :: watch where
  "snake_begun = snake_start
     \<lparr>rng_seed := 1638422747,
      snake_x := [10, 9, 8, 7] @ replicate 96 0,
      snake_y := [15, 15, 15, 15] @ replicate 96 0,
      snake_food_x := 12, snake_food_y := 15\<rparr>"

text \<open>
  The direction numbers of \<open>snake_dir\<close> (0 right, 1 down, 2 left, 3 up). A snake
  travels in direction \<open>d\<close> when its head lies one cell from its second segment in that
  direction; the opposite direction is two steps further in the numbering.
\<close>

definition travels :: "watch \<Rightarrow> int \<Rightarrow> bool" where
  "travels st d =
     ((d = 0 \<or> d = 1 \<or> d = 2 \<or> d = 3)
      \<and> snake_x st ! 0 = snake_x st ! 1 + (if d = 0 then 1 else if d = 2 then - 1 else 0)
      \<and> snake_y st ! 0 = snake_y st ! 1 + (if d = 1 then 1 else if d = 3 then - 1 else 0))"

definition opposite :: "int \<Rightarrow> int" where
  "opposite d = (d + 2) mod 4"

text \<open>
  A clearing step in which the four bottom rows are complete, as after an upright
  I-piece has dropped into a well: \<open>clear_four\<close> puts that grid in place and calls
  \<open>tetris_clear_lines\<close>.
\<close>

definition four_rows :: "int list list" where
  "four_rows = replicate 16 empty_row @ replicate 4 (replicate 10 1)"

definition clear_four :: "watch \<Rightarrow> watch" where
  "clear_four st = tetris_clear_lines (st\<lparr>tetris_grid := four_rows\<rparr>)"

text \<open>
  The paddle test of \<open>update_breakout\<close> as a predicate on the state in which the ball
  has been moved, and the state with the ball moved by its velocity.
\<close>

definition on_paddle :: "watch \<Rightarrow> bool" where
  "on_paddle st =
     (ball_y st + real_of_int ball_radius \<ge> real_of_int paddle_y
      \<and> ball_y st - real_of_int ball_radius \<le> real_of_int (paddle_y + paddle_h)
      \<and> ball_x st \<ge> paddle_x st
      \<and> ball_x st \<le> paddle_x st + real_of_int paddle_w)"

definition ball_moved :: "watch \<Rightarrow> watch" where
  "ball_moved st = st\<lparr>ball_x := ball_x st + ball_dx st, ball_y := ball_y st + ball_dy st\<rparr>"

text \<open>
  A fresh Breakout board with the ball at \<open>(184, 398)\<close> moving down by \<open>(1, 3)\<close>
  towards the paddle, which spans 154 to 214.
\<close>

definition paddle_demo :: watch where
  "paddle_demo = (init_breakout power_on)
     \<lparr>ball_x := 184, ball_y := 398, ball_dx := 1, ball_dy := 3\<rparr>"






text \<open>
  The slot of \<open>high_scores\<close> that belongs to a game
  (\<^verbatim>\<open>// [asteroids, tetris, snake, breakout]\<close>), and what it means that a tick from \<open>st\<close> to
  \<open>st'\<close> ends the game with a new record in slot \<open>v\<close>.
\<close>

fun score_slot :: "GameState \<Rightarrow> nat option" where
  "score_slot ASTEROIDS = Some 0"
| "score_slot TETRIS = Some 1"
| "score_slot SNAKE = Some 2"
| "score_slot BREAKOUT = Some 3"
| "score_slot GAME_MENU = None"

definition new_record :: "nat \<Rightarrow> watch \<Rightarrow> watch \<Rightarrow> bool" where
  "new_record v st st' =
     (\<not> game_over st \<and> game_over st' \<and> high_scores st ! v < game_score st'
      \<and> high_scores st' = (high_scores st)[v := game_score st'])"

text \<open>
  A Breakout game with 10 points whose ball, at height 442 and falling by 3 a tick, leaves
  the screen in the next tick.
\<close>

definition lost_ball :: watch where
  "lost_ball = (init_breakout (power_on\<lparr>current_screen := SCR_GAME_ARCADE,
       current_game := BREAKOUT\<rparr>))\<lparr>game_score := 10, ball_y := 442, ball_dy := 3\<rparr>"

section \<open>Properties of the random number generator\<close>

lemma unat_rng_next: "unat (rng_next s) = (unat s * 1103515245 + 12345) mod 2 ^ 31"
proof -
  have m: "(0x7fffffff :: u32) = mask 31"
    by (simp add: mask_eq_exp_minus_1)
  have "unat (rng_next s) = unat (s * 1103515245 + 12345) mod 2 ^ 31"
    unfolding rng_next_def m
    by (simp add: unsigned_take_bit_eq take_bit_eq_mod unat_mod flip: take_bit_eq_mask)
  also have "unat (s * 1103515245 + 12345) = (unat s * 1103515245 + 12345) mod 2 ^ 32"
    by (simp add: unat_word_ariths mod_simps)
  also have "\<dots> mod 2 ^ 31 = (unat s * 1103515245 + 12345) mod 2 ^ 31"
    by (rule mod_mod_cancel) simp
  finally show ?thesis .
qed

lemma unat_diff_signed:
  fixes a b :: u32
  assumes "sint a < sint b"
  shows "int (unat (b - a)) = sint b - sint a"
proof -
  have ra: "- (2 ^ 31) \<le> sint a" "sint a < 2 ^ 31"
    using sint_ge [of a] sint_lt [of a] by simp_all
  have rb: "- (2 ^ 31) \<le> sint b" "sint b < 2 ^ 31"
    using sint_ge [of b] sint_lt [of b] by simp_all
  have e: "b - a = word_of_int (sint b - sint a)"
    by simp
  have "uint (b - a) = uint (word_of_int (sint b - sint a) :: u32)"
    by (rule arg_cong [OF e])
  also have "\<dots> = (sint b - sint a) mod 2 ^ 32"
    by (simp only: uint_word_of_int) simp
  also have "\<dots> = sint b - sint a"
    using assms ra rb by (simp add: mod_pos_pos_trivial)
  finally show ?thesis by simp
qed

lemma sint_add_small:
  fixes a r :: u32
  assumes "sint a + int (unat r) < 2 ^ 31"
  shows "sint (a + r) = sint a + int (unat r)"
proof -
  have ra: "- (2 ^ 31) \<le> sint a"
    using sint_ge [of a] by simp
  have e: "a + r = word_of_int (sint a + uint r)"
    by simp
  have "sint (a + r) = sint (word_of_int (sint a + uint r) :: u32)"
    by (rule arg_cong [OF e])
  also have "\<dots> = signed_take_bit 31 (sint a + uint r)"
    by (simp only: sint_sbintrunc') simp
  also have "\<dots> = sint a + uint r"
  proof (rule signed_take_bit_int_eq_self)
    have u: "0 \<le> uint r" by simp
    show "- (2 ^ 31) \<le> sint a + uint r" using ra u by linarith
    show "sint a + uint r < 2 ^ 31" using assms by simp
  qed
  finally show ?thesis by simp
qed

lemma rng_value:
  assumes "sint min_val < sint max_val"
  shows "sint (fst (rng min_val max_val st)) =
           sint min_val
           + int ((unat (rng_seed st) * 1103515245 + 12345) mod 2 ^ 31)
             mod (sint max_val - sint min_val)"
    and "sint min_val \<le> sint (fst (rng min_val max_val st))"
    and "sint (fst (rng min_val max_val st)) < sint max_val"
proof -
  let ?d = "max_val - min_val"
  let ?n = "rng_next (rng_seed st)"
  let ?r = "?n mod ?d"
  have d: "int (unat ?d) = sint max_val - sint min_val"
    by (rule unat_diff_signed [OF assms])
  then have dpos: "0 < unat ?d"
    using assms by linarith
  have r: "unat ?r = unat ?n mod unat ?d"
    by (rule unat_mod)
  then have rlt: "unat ?r < unat ?d"
    using dpos by simp
  have "sint min_val + int (unat ?r) < sint max_val"
    using rlt d by linarith
  moreover have "sint max_val < 2 ^ 31"
    using sint_lt [of max_val] by simp
  ultimately have "sint min_val + int (unat ?r) < 2 ^ 31"
    by linarith
  then have x: "sint (min_val + ?r) = sint min_val + int (unat ?r)"
    by (rule sint_add_small)
  have f: "fst (rng min_val max_val st) = min_val + ?r"
    by (simp add: rng_def rng1_def Let_def)
  show "sint min_val \<le> sint (fst (rng min_val max_val st))"
    unfolding f x by simp
  show "sint (fst (rng min_val max_val st)) < sint max_val"
    unfolding f x using rlt d by linarith
  show "sint (fst (rng min_val max_val st)) =
           sint min_val
           + int ((unat (rng_seed st) * 1103515245 + 12345) mod 2 ^ 31)
             mod (sint max_val - sint min_val)"
    unfolding f x using r d by (simp add: zmod_int unat_rng_next)
qed

lemma rng_state: "rng_seed (snd (rng min_val max_val st)) = rng_next (rng_seed st)"
  by (simp add: rng_def rng1_def Let_def)

lemma rng_run_seed_only:
  "rng_seed st = rng_seed st' \<Longrightarrow>
     fst (rng_run cs st) = fst (rng_run cs st')
     \<and> rng_seed (snd (rng_run cs st)) = rng_seed (snd (rng_run cs st'))"
proof (induction cs arbitrary: st st')
  case Nil
  then show ?case by simp
next
  case (Cons c cs)
  obtain lo hi where c: "c = (lo, hi)" by (cases c)
  have v: "fst (rng lo hi st) = fst (rng lo hi st')"
    using Cons.prems by (simp add: rng_def rng1_def Let_def)
  have "rng_seed (snd (rng lo hi st)) = rng_seed (snd (rng lo hi st'))"
    using Cons.prems by (simp add: rng_state)
  from Cons.IH [OF this] v show ?case
    by (simp add: c split_beta Let_def)
qed

lemma rng_run_in_range:
  "\<forall>(lo, hi) \<in> set cs. sint lo < sint hi \<Longrightarrow>
     list_all2 (\<lambda>(lo, hi) r. sint lo \<le> sint r \<and> sint r < sint hi) cs (fst (rng_run cs st))"
proof (induction cs arbitrary: st)
  case Nil
  then show ?case by simp
next
  case (Cons c cs)
  obtain lo hi where c: "c = (lo, hi)" by (cases c)
  have lt: "sint lo < sint hi" using Cons.prems c by simp
  have rest: "\<forall>(lo, hi) \<in> set cs. sint lo < sint hi" using Cons.prems by simp
  show ?case
    using rng_value(2,3) [OF lt, of st] Cons.IH [OF rest, of "snd (rng lo hi st)"]
    by (simp add: c split_beta Let_def)
qed

text \<open>
  Claim C1. After \<open>seed_rng seed\<close> the values returned by any run of calls
  \<open>rng(min, max)\<close> depend on the seed and the calls alone, not on anything else in the
  state, so two runs from the same seed return the same sequence. When every call has
  \<open>min < max\<close> (as signed \<open>long\<close>), every value returned lies in \<open>[min, max)\<close>. A single
  call replaces the state \<open>s\<close> by \<open>(s * 1103515245 + 12345) mod 2^31\<close> and returns
  \<open>min\<close> plus the new state modulo \<open>max - min\<close>.
\<close>

theorem rng_deterministic_in_range:
  assumes "\<forall>(lo, hi) \<in> set cs. sint lo < sint hi" and "sint min_val < sint max_val"
  shows "fst (rng_run cs (seed_rng seed st)) = fst (rng_run cs (seed_rng seed st'))
    \<and> list_all2 (\<lambda>(lo, hi) r. sint lo \<le> sint r \<and> sint r < sint hi) cs
         (fst (rng_run cs (seed_rng seed st)))
    \<and> unat (rng_seed (snd (rng min_val max_val st)))
         = (unat (rng_seed st) * 1103515245 + 12345) mod 2 ^ 31
    \<and> sint (fst (rng min_val max_val st))
         = sint min_val + int (unat (rng_seed (snd (rng min_val max_val st))))
             mod (sint max_val - sint min_val)
    \<and> sint min_val \<le> sint (fst (rng min_val max_val st))
    \<and> sint (fst (rng min_val max_val st)) < sint max_val"
proof -
  have "rng_seed (seed_rng seed st) = rng_seed (seed_rng seed st')"
    by (simp add: seed_rng_def)
  then have det: "fst (rng_run cs (seed_rng seed st)) = fst (rng_run cs (seed_rng seed st'))"
    using rng_run_seed_only by blast
  have rec: "unat (rng_seed (snd (rng min_val max_val st)))
         = (unat (rng_seed st) * 1103515245 + 12345) mod 2 ^ 31"
    by (simp add: rng_state unat_rng_next)
  show ?thesis
    using det rng_run_in_range [OF assms(1)] rng_value [OF assms(2), of st] rec
    by simp
qed

text \<open>
  Witness: from the reset state and from a state with another seed and score, seed 42
  and three calls \<open>rng(0, 7)\<close> return 4, 0, 6; the first call leaves the state
  1250496027.
\<close>

theorem rng_deterministic_in_range_witness:
  "fst (rng_run [(0, 7), (0, 7), (0, 7)] (seed_rng 42 power_on)) = [4, 0, 6]
   \<and> fst (rng_run [(0, 7), (0, 7), (0, 7)]
         (seed_rng 42 (power_on\<lparr>rng_seed := 7, game_score := 99\<rparr>)))
       = fst (rng_run [(0, 7), (0, 7), (0, 7)] (seed_rng 42 power_on))
   \<and> unat (rng_seed (snd (rng 0 7 (seed_rng 42 power_on)))) = 1250496027
   \<and> sint (fst (rng 0 7 (seed_rng 42 power_on))) = 4"
proof -
  have c: "\<forall>(lo, hi) \<in> set [(0 :: u32, 7 :: u32), (0, 7), (0, 7)]. sint lo < sint hi"
    by simp
  have m: "sint (0 :: u32) < sint (7 :: u32)"
    by simp
  have v: "fst (rng_run [(0, 7), (0, 7), (0, 7)] (seed_rng 42 st)) = [4, 0, 6]" for st
    by (simp add: rng_def rng1_def rng_next_def seed_rng_def Let_def)
  note t = rng_deterministic_in_range [OF c m, where seed = 42
      and st = "seed_rng 42 power_on"
      and st' = "power_on\<lparr>rng_seed := 7, game_score := 99\<rparr>"]
  have det: "fst (rng_run [(0, 7), (0, 7), (0, 7)]
         (seed_rng 42 (power_on\<lparr>rng_seed := 7, game_score := 99\<rparr>)))
       = fst (rng_run [(0, 7), (0, 7), (0, 7)] (seed_rng 42 power_on))"
    using t by (simp add: seed_rng_def)
  have s1: "unat (rng_seed (snd (rng 0 7 (seed_rng 42 power_on)))) = 1250496027"
    using t by (simp add: seed_rng_def)
  have "sint (fst (rng 0 7 (seed_rng 42 power_on)))
      = sint (0 :: u32) + int (unat (rng_seed (snd (rng 0 7 (seed_rng 42 power_on)))))
          mod (sint (7 :: u32) - sint (0 :: u32))"
    using t by blast
  then have v1: "sint (fst (rng 0 7 (seed_rng 42 power_on))) = 4"
    unfolding s1 by simp
  show ?thesis
    using v det s1 v1 by simp
qed


section \<open>What each operation leaves alone\<close>

text \<open>
  The lemmas of this section say, function by function, that \<open>ctx\<close> and the table of
  high scores are the same before and after.
\<close>

lemma ctx_update_1 [simp]:
  "ctx (st\<lparr>rng_seed := v0\<rparr>) = ctx st"
  "ctx (st\<lparr>clock_h := v1\<rparr>) = ctx st"
  "ctx (st\<lparr>clock_m := v2\<rparr>) = ctx st"
  "ctx (st\<lparr>day := v3\<rparr>) = ctx st"
  "ctx (st\<lparr>month := v4\<rparr>) = ctx st"
  "ctx (st\<lparr>year := v5\<rparr>) = ctx st"
  "ctx (st\<lparr>menu_sel := v6\<rparr>) = ctx st"
  "ctx (st\<lparr>games_sel := v7\<rparr>) = ctx st"
  "ctx (st\<lparr>settings_sel := v8\<rparr>) = ctx st"
  "ctx (st\<lparr>set_time_field := v9\<rparr>) = ctx st"
  "ctx (st\<lparr>set_time_dirty := v10\<rparr>) = ctx st"
  "ctx (st\<lparr>last_time_button_press := v11\<rparr>) = ctx st"
  "ctx (st\<lparr>set_date_field := v12\<rparr>) = ctx st"
  by (simp_all add: ctx_def)

lemma ctx_update_2 [simp]:
  "ctx (st\<lparr>set_date_dirty := v13\<rparr>) = ctx st"
  "ctx (st\<lparr>last_date_button_press := v14\<rparr>) = ctx st"
  "ctx (st\<lparr>game_over := v15\<rparr>) = ctx st"
  "ctx (st\<lparr>game_score := v16\<rparr>) = ctx st"
  "ctx (st\<lparr>high_scores := v17\<rparr>) = ctx st"
  "ctx (st\<lparr>ship := v18\<rparr>) = ctx st"
  "ctx (st\<lparr>bullets := v19\<rparr>) = ctx st"
  "ctx (st\<lparr>asteroids := v20\<rparr>) = ctx st"
  "ctx (st\<lparr>asteroids_level := v21\<rparr>) = ctx st"
  "ctx (st\<lparr>tetris_grid := v22\<rparr>) = ctx st"
  "ctx (st\<lparr>tetris_current_piece := v23\<rparr>) = ctx st"
  "ctx (st\<lparr>tetris_current_type := v24\<rparr>) = ctx st"
  "ctx (st\<lparr>tetris_next_type := v25\<rparr>) = ctx st"
  by (simp_all add: ctx_def)

lemma ctx_update_3 [simp]:
  "ctx (st\<lparr>tetris_piece_x := v26\<rparr>) = ctx st"
  "ctx (st\<lparr>tetris_piece_y := v27\<rparr>) = ctx st"
  "ctx (st\<lparr>tetris_last_drop := v28\<rparr>) = ctx st"
  "ctx (st\<lparr>tetris_drop_speed := v29\<rparr>) = ctx st"
  "ctx (st\<lparr>tetris_lines_cleared := v30\<rparr>) = ctx st"
  "ctx (st\<lparr>tetris_piece_placed := v31\<rparr>) = ctx st"
  "ctx (st\<lparr>snake_x := v32\<rparr>) = ctx st"
  "ctx (st\<lparr>snake_y := v33\<rparr>) = ctx st"
  "ctx (st\<lparr>snake_length := v34\<rparr>) = ctx st"
  "ctx (st\<lparr>snake_dir := v35\<rparr>) = ctx st"
  "ctx (st\<lparr>snake_food_x := v36\<rparr>) = ctx st"
  "ctx (st\<lparr>snake_food_y := v37\<rparr>) = ctx st"
  "ctx (st\<lparr>snake_last_move := v38\<rparr>) = ctx st"
  by (simp_all add: ctx_def)

lemma ctx_update_4 [simp]:
  "ctx (st\<lparr>snake_speed := v39\<rparr>) = ctx st"
  "ctx (st\<lparr>bricks := v40\<rparr>) = ctx st"
  "ctx (st\<lparr>ball_x := v41\<rparr>) = ctx st"
  "ctx (st\<lparr>ball_y := v42\<rparr>) = ctx st"
  "ctx (st\<lparr>ball_dx := v43\<rparr>) = ctx st"
  "ctx (st\<lparr>ball_dy := v44\<rparr>) = ctx st"
  "ctx (st\<lparr>paddle_x := v45\<rparr>) = ctx st"
  "ctx (st\<lparr>bricks_remaining := v46\<rparr>) = ctx st"
  "ctx (st\<lparr>last_game_update := v47\<rparr>) = ctx st"
  "ctx (st\<lparr>last_stat_decay := v48\<rparr>) = ctx st"
  "ctx (st\<lparr>last_redraw := v49\<rparr>) = ctx st"
  by (simp_all add: ctx_def)

lemma rng1_snd: "snd (rng1 m st) = st\<lparr>rng_seed := rng_next (rng_seed st)\<rparr>"
  by (simp add: rng1_def Let_def)

lemma rng_snd: "snd (rng lo hi st) = st\<lparr>rng_seed := rng_next (rng_seed st)\<rparr>"
  by (simp add: rng_def rng1_def Let_def)

lemma rng1_int_snd: "snd (rng1_int m st) = st\<lparr>rng_seed := rng_next (rng_seed st)\<rparr>"
  by (simp add: rng1_int_def split_beta rng1_snd)

lemma rng_int_snd: "snd (rng_int lo hi st) = st\<lparr>rng_seed := rng_next (rng_seed st)\<rparr>"
  by (simp add: rng_int_def split_beta rng_snd)

lemmas rng_snds = rng1_snd rng_snd rng1_int_snd rng_int_snd

lemma frame_fold:
  assumes "\<And>x s. ctx (f x s) = ctx s \<and> high_scores (f x s) = high_scores s"
  shows "ctx (fold f xs s) = ctx s \<and> high_scores (fold f xs s) = high_scores s"
  using assms by (induction xs arbitrary: s) simp_all

subsection \<open>Asteroids\<close>

lemma frame_spawn_asteroid:
  "ctx (spawn_asteroid i st) = ctx st
   \<and> high_scores (spawn_asteroid i st) = high_scores st"
  by (simp add: spawn_asteroid_def split_beta rng_snds)

lemma frame_init_asteroids:
  "ctx (init_asteroids st) = ctx st \<and> high_scores (init_asteroids st) = high_scores st"
proof -
  have "ctx (fold spawn_asteroid xs s) = ctx s
      \<and> high_scores (fold spawn_asteroid xs s) = high_scores s" for xs s
    by (rule frame_fold) (rule frame_spawn_asteroid)
  then show ?thesis
    by (simp add: init_asteroids_def Let_def)
qed

lemma frame_spawn_child:
  "ctx (spawn_child i a old_size old_x old_y st) = ctx st
   \<and> high_scores (spawn_child i a old_size old_x old_y st) = high_scores st"
  by (simp add: spawn_child_def split_beta rng_snds Let_def)

lemma frame_split_scan:
  "ctx (split_scan xs c a old_size old_x old_y st) = ctx st
   \<and> high_scores (split_scan xs c a old_size old_x old_y st) = high_scores st"
  by (induction xs c a old_size old_x old_y st rule: split_scan.induct)
     (simp_all add: frame_spawn_child)

lemma frame_asteroid_hit:
  "ctx (asteroid_hit b a st) = ctx st \<and> high_scores (asteroid_hit b a st) = high_scores st"
  by (simp add: asteroid_hit_def Let_def frame_split_scan)

lemma frame_scan_asteroids:
  "ctx (scan_asteroids b xs st) = ctx st
   \<and> high_scores (scan_asteroids b xs st) = high_scores st"
  by (induction b xs st rule: scan_asteroids.induct) (simp_all add: frame_asteroid_hit)

lemma frame_bullet_collisions:
  "ctx (bullet_collisions st) = ctx st \<and> high_scores (bullet_collisions st) = high_scores st"
  unfolding bullet_collisions_def
  by (rule frame_fold) (simp add: frame_scan_asteroids)

lemma ctx_ship_collisions: "ctx (ship_collisions xs st) = ctx st"
  by (induction xs st rule: ship_collisions.induct) (simp_all add: Let_def)

lemma ctx_update_asteroids: "ctx (update_asteroids now st) = ctx st"
  by (simp add: update_asteroids_def Let_def frame_init_asteroids ctx_ship_collisions
        frame_bullet_collisions)

lemma frame_fire_bullet:
  "ctx (fire_bullet xs now st) = ctx st \<and> high_scores (fire_bullet xs now st) = high_scores st"
  by (induction xs now st rule: fire_bullet.induct) (simp_all add: Let_def)

lemma frame_steer_ship:
  "ctx (steer_ship tx now st) = ctx st \<and> high_scores (steer_ship tx now st) = high_scores st"
  by (simp add: steer_ship_def frame_fire_bullet)

subsection \<open>Tetris\<close>

lemma frame_init_tetris:
  "ctx (init_tetris now st) = ctx st \<and> high_scores (init_tetris now st) = high_scores st"
  by (simp add: init_tetris_def split_beta rng_snds Let_def)

lemma frame_place_cell:
  "ctx (place_cell y x st) = ctx st \<and> high_scores (place_cell y x st) = high_scores st"
  by (simp add: place_cell_def Let_def)

lemma frame_tetris_place_piece:
  "ctx (tetris_place_piece st) = ctx st \<and> high_scores (tetris_place_piece st) = high_scores st"
  unfolding tetris_place_piece_def
  by (rule frame_fold) (rule frame_fold, rule frame_place_cell)

lemma frame_tetris_clear_lines:
  "ctx (tetris_clear_lines st) = ctx st \<and> high_scores (tetris_clear_lines st) = high_scores st"
  by (simp add: tetris_clear_lines_def split_beta Let_def)

lemma frame_try_kicks:
  "ctx (try_kicks ks temp st) = ctx st \<and> high_scores (try_kicks ks temp st) = high_scores st"
  by (induction ks temp st rule: try_kicks.induct) (simp_all add: Let_def)

lemma frame_tetris_rotate_piece:
  "ctx (tetris_rotate_piece st) = ctx st
   \<and> high_scores (tetris_rotate_piece st) = high_scores st"
  by (simp add: tetris_rotate_piece_def Let_def frame_try_kicks)

lemma frame_touch_tetris:
  "ctx (touch_tetris tx st) = ctx st \<and> high_scores (touch_tetris tx st) = high_scores st"
  by (simp add: touch_tetris_def Let_def frame_tetris_rotate_piece)

lemma ctx_tetris_spawn_new_piece: "ctx (tetris_spawn_new_piece st) = ctx st"
  by (simp add: tetris_spawn_new_piece_def split_beta rng_snds Let_def)

lemma ctx_update_tetris: "ctx (update_tetris now st) = ctx st"
  by (simp add: update_tetris_def Let_def ctx_tetris_spawn_new_piece frame_tetris_clear_lines
        frame_tetris_place_piece)

subsection \<open>Snake\<close>

lemma frame_init_segments:
  "ctx (init_segments xs sx sy st) = ctx st
   \<and> high_scores (init_segments xs sx sy st) = high_scores st"
  by (induction xs sx sy st rule: init_segments.induct) simp_all

lemma frame_init_snake_food:
  assumes "init_snake_food st = Some st'"
  shows "ctx st' = ctx st \<and> high_scores st' = high_scores st"
  using assms
proof (induct rule: init_snake_food.raw_induct [rotated 1, consumes 1])
  case (1 f st st')
  let ?rx = "rng_int 2 (SNAKE_GRID_W - 2) st"
  let ?ry = "rng_int 2 (SNAKE_GRID_H - 2) (snd ?rx)"
  let ?s1 = "(snd ?ry)\<lparr>snake_food_x := fst ?rx, snake_food_y := fst ?ry\<rparr>"
  have s1: "ctx ?s1 = ctx st \<and> high_scores ?s1 = high_scores st"
    by (simp add: rng_snds)
  from 1(2) have "f ?s1 = Some st' \<or> ?s1 = st'"
    by (simp add: Let_def split: if_splits)
  then show ?case
    using 1(1) [of ?s1 st'] s1 by auto
qed

lemma frame_init_snake:
  assumes "init_snake now st = Some st'"
  shows "ctx st' = ctx st \<and> high_scores st' = high_scores st"
proof -
  from assms obtain s2 where s2: "init_snake_food s2 = Some st'"
    and f: "ctx s2 = ctx st \<and> high_scores s2 = high_scores st"
    by (simp add: init_snake_def Let_def frame_init_segments)
  from frame_init_snake_food [OF s2] f show ?thesis
    by simp
qed

lemma frame_snake_place_food:
  assumes "snake_place_food st = Some st'"
  shows "ctx st' = ctx st \<and> high_scores st' = high_scores st"
  using assms
proof (induct rule: snake_place_food.raw_induct [rotated 1, consumes 1])
  case (1 f st st')
  let ?rx = "rng1_int SNAKE_GRID_W st"
  let ?ry = "rng1_int SNAKE_GRID_H (snd ?rx)"
  let ?s1 = "(snd ?ry)\<lparr>snake_food_x := fst ?rx, snake_food_y := fst ?ry\<rparr>"
  have s1: "ctx ?s1 = ctx st \<and> high_scores ?s1 = high_scores st"
    by (simp add: rng_snds)
  from 1(2) have "f ?s1 = Some st' \<or> ?s1 = st'"
    by (simp add: Let_def split: if_splits)
  then show ?case
    using 1(1) [of ?s1 st'] s1 by auto
qed

lemma frame_move_body:
  "ctx (move_body n st) = ctx st \<and> high_scores (move_body n st) = high_scores st"
  by (induction n st rule: move_body.induct) simp_all

lemma frame_touch_snake:
  "ctx (touch_snake tx ty st) = ctx st \<and> high_scores (touch_snake tx ty st) = high_scores st"
  by (simp add: touch_snake_def)

lemma frame_snake_eat:
  assumes "snake_eat st = Some st'"
  shows "ctx st' = ctx st \<and> high_scores st' = high_scores st"
proof -
  let ?s1 = "st\<lparr>game_score := game_score st + 10, snake_length := snake_length st + 1,
                 snake_speed := max 100 (snake_speed st - 5)\<rparr>"
  from assms have "snake_place_food ?s1 = Some st'"
    by (simp add: snake_eat_def Let_def split: if_splits)
  from frame_snake_place_food [OF this] show ?thesis
    by simp
qed

lemma frame_snake_advance:
  "ctx (snake_advance nx ny st) = ctx st
   \<and> high_scores (snake_advance nx ny st) = high_scores st"
  by (simp add: snake_advance_def Let_def frame_move_body)

lemma ctx_snake_die: "ctx (snake_die st) = ctx st"
  by (simp add: snake_die_def Let_def)

text \<open>The four ways through \<open>update_snake\<close>.\<close>

lemma update_snake_idle:
  "game_over st \<or> now - snake_last_move st < word_of_int (snake_speed st) \<Longrightarrow>
     update_snake now st = Some st"
  by (auto simp: update_snake_def)

lemma update_snake_collide:
  assumes "\<not> game_over st" and "\<not> now - snake_last_move st < word_of_int (snake_speed st)"
    and "s1 = st\<lparr>snake_last_move := now\<rparr>"
    and "snake_check_collision (snake_ahead_x s1) (snake_ahead_y s1) s1"
  shows "update_snake now st = Some (snake_die s1)"
  unfolding update_snake_def Let_def assms(3) [symmetric]
  using assms(1,2,4) by simp

lemma update_snake_eat:
  assumes "\<not> game_over st" and "\<not> now - snake_last_move st < word_of_int (snake_speed st)"
    and "s1 = st\<lparr>snake_last_move := now\<rparr>"
    and "\<not> snake_check_collision (snake_ahead_x s1) (snake_ahead_y s1) s1"
    and "snake_ahead_x s1 = snake_food_x s1" and "snake_ahead_y s1 = snake_food_y s1"
  shows "update_snake now st
       = map_option (snake_advance (snake_ahead_x s1) (snake_ahead_y s1)) (snake_eat s1)"
  unfolding update_snake_def Let_def assms(3) [symmetric]
  using assms(1,2,4,5,6) by (cases "snake_eat s1") simp_all

lemma update_snake_move:
  assumes "\<not> game_over st" and "\<not> now - snake_last_move st < word_of_int (snake_speed st)"
    and "s1 = st\<lparr>snake_last_move := now\<rparr>"
    and "\<not> snake_check_collision (snake_ahead_x s1) (snake_ahead_y s1) s1"
    and "\<not> (snake_ahead_x s1 = snake_food_x s1 \<and> snake_ahead_y s1 = snake_food_y s1)"
  shows "update_snake now st = Some (snake_advance (snake_ahead_x s1) (snake_ahead_y s1) s1)"
proof -
  have "(if snake_ahead_x s1 = snake_food_x s1 \<and> snake_ahead_y s1 = snake_food_y s1
         then snake_eat s1 else Some s1) = Some s1"
    using assms(5) by (simp only: if_False)
  then show ?thesis
    unfolding update_snake_def Let_def assms(3) [symmetric]
    using assms(1,2,4) by simp
qed

lemma ctx_update_snake:
  assumes "update_snake now st = Some st'"
  shows "ctx st' = ctx st"
proof -
  define s1 where "s1 = st\<lparr>snake_last_move := now\<rparr>"
  have c1: "ctx s1 = ctx st"
    by (simp add: s1_def)
  show ?thesis
  proof (cases "game_over st \<or> now - snake_last_move st < word_of_int (snake_speed st)")
    case True
    from update_snake_idle [OF True] assms show ?thesis
      by simp
  next
    case False
    then have idle: "\<not> game_over st"
        "\<not> now - snake_last_move st < word_of_int (snake_speed st)"
      by simp_all
    show ?thesis
    proof (cases "snake_check_collision (snake_ahead_x s1) (snake_ahead_y s1) s1")
      case True
      from update_snake_collide [OF idle s1_def True] assms have "st' = snake_die s1"
        by simp
      then show ?thesis
        using c1 by (simp add: ctx_snake_die)
    next
      case free: False
      show ?thesis
      proof (cases "snake_ahead_x s1 = snake_food_x s1 \<and> snake_ahead_y s1 = snake_food_y s1")
        case True
        then have fx: "snake_ahead_x s1 = snake_food_x s1"
          and fy: "snake_ahead_y s1 = snake_food_y s1"
          by simp_all
        from update_snake_eat [OF idle s1_def free fx fy] assms
        have "map_option (snake_advance (snake_ahead_x s1) (snake_ahead_y s1)) (snake_eat s1)
            = Some st'"
          by simp
        then obtain s2 where e: "snake_eat s1 = Some s2"
          and s': "snake_advance (snake_ahead_x s1) (snake_ahead_y s1) s2 = st'"
          unfolding map_option_eq_Some by blast
        from frame_snake_eat [OF e] s' [symmetric] c1 show ?thesis
          by (simp add: frame_snake_advance)
      next
        case False
        from update_snake_move [OF idle s1_def free False] assms
        have "st' = snake_advance (snake_ahead_x s1) (snake_ahead_y s1) s1"
          by simp
        then show ?thesis
          using c1 by (simp add: frame_snake_advance)
      qed
    qed
  qed
qed

subsection \<open>Breakout\<close>

lemma frame_init_breakout:
  "ctx (init_breakout st) = ctx st \<and> high_scores (init_breakout st) = high_scores st"
  by (simp add: init_breakout_def)

lemma frame_brick_hit:
  "ctx (brick_hit row col st) = ctx st \<and> high_scores (brick_hit row col st) = high_scores st"
  by (simp add: brick_hit_def Let_def frame_init_breakout)

lemma frame_brick_cols:
  "ctx (brick_cols row cols st) = ctx st
   \<and> high_scores (brick_cols row cols st) = high_scores st"
  by (induction row cols st rule: brick_cols.induct) (simp_all add: frame_brick_hit)

lemma frame_brick_rows:
  "ctx (brick_rows st) = ctx st \<and> high_scores (brick_rows st) = high_scores st"
  unfolding brick_rows_def by (rule frame_fold) (rule frame_brick_cols)

lemma frame_paddle_bounce:
  "ctx (paddle_bounce st) = ctx st \<and> high_scores (paddle_bounce st) = high_scores st"
  by (simp add: paddle_bounce_def Let_def)

lemma ctx_update_breakout: "ctx (update_breakout st) = ctx st"
  by (simp add: update_breakout_def Let_def frame_brick_rows frame_paddle_bounce)

lemma frame_move_paddle:
  "ctx (move_paddle tx st) = ctx st \<and> high_scores (move_paddle tx st) = high_scores st"
  by (simp add: move_paddle_def Let_def)


section \<open>The pet's stats stay in range\<close>

lemma frame_process_button:
  "pet (process_button b now st) = pet st
   \<and> high_scores (process_button b now st) = high_scores st"
  by (cases "current_screen st")
     (simp_all add: process_button_def button_set_time_def button_set_date_def
        open_menu_def open_watchface_def Let_def)

lemma frame_touch_tamagotchi:
  "current_screen (touch_tamagotchi tx ty st) = current_screen st
   \<and> current_game (touch_tamagotchi tx ty st) = current_game st
   \<and> high_scores (touch_tamagotchi tx ty st) = high_scores st"
  by (simp add: touch_tamagotchi_def Let_def)

lemma frame_pet_animate:
  "current_screen (pet_animate now st) = current_screen st
   \<and> current_game (pet_animate now st) = current_game st
   \<and> high_scores (pet_animate now st) = high_scores st"
  by (simp add: pet_animate_def Let_def split_beta rng_snds)

lemma frame_loop_tamagotchi:
  "current_screen (loop_tamagotchi now st) = current_screen st
   \<and> current_game (loop_tamagotchi now st) = current_game st
   \<and> high_scores (loop_tamagotchi now st) = high_scores st"
  by (simp add: loop_tamagotchi_def pet_decay_def pet_clamp_def Let_def frame_pet_animate)

lemma stat_small:
  assumes "0 \<le> k" and "k \<le> 100"
  shows "stat_in_range (word_of_int k)"
proof -
  have "uint (word_of_int k :: u8) = k mod 2 ^ 8"
    by (simp only: uint_word_of_int) simp
  also have "\<dots> = k"
    using assms by simp
  finally show ?thesis
    using assms by (simp add: stat_in_range_def)
qed

lemma stat_up_ok: "0 \<le> n \<Longrightarrow> stat_in_range (stat_up v n)"
  unfolding stat_up_def by (rule stat_small) simp_all

lemma stat_down_ok: "stat_in_range v \<Longrightarrow> 0 \<le> n \<Longrightarrow> stat_in_range (stat_down v n)"
  unfolding stat_down_def by (rule stat_small) (simp_all add: stat_in_range_def)

lemma stat_const_ok: "stat_in_range 0" "stat_in_range 50" "stat_in_range 100"
  by (simp_all add: stat_in_range_def)

lemma touch_tamagotchi_ok:
  "pet_stats_ok (pet st) \<Longrightarrow> pet_stats_ok (pet (touch_tamagotchi tx ty st))"
  by (simp add: touch_tamagotchi_def Let_def pet_stats_ok_def stat_up_ok stat_down_ok
        stat_const_ok)

lemma pet_animate_ok: "pet_stats_ok (pet st) \<Longrightarrow> pet_stats_ok (pet (pet_animate now st))"
  by (simp add: pet_animate_def Let_def split_beta rng_snds pet_stats_ok_def)

lemma pet_decay_ok: "pet_stats_ok (pet st) \<Longrightarrow> pet_stats_ok (pet (pet_decay st))"
  by (simp add: pet_decay_def Let_def pet_stats_ok_def stat_down_ok)

lemma pet_clamp_ok: "pet_stats_ok (pet st) \<Longrightarrow> pet_stats_ok (pet (pet_clamp st))"
  by (simp add: pet_clamp_def Let_def pet_stats_ok_def)

lemma loop_tamagotchi_ok:
  assumes "pet_stats_ok (pet st)"
  shows "pet_stats_ok (pet (loop_tamagotchi now st))"
proof -
  have a: "pet_stats_ok (pet (pet_animate now st))"
    by (rule pet_animate_ok [OF assms])
  then have "pet_stats_ok (pet (pet_decay ((pet_animate now st)\<lparr>last_stat_decay := now\<rparr>)))"
    by (intro pet_decay_ok) simp
  with a show ?thesis
    unfolding loop_tamagotchi_def Let_def by (intro pet_clamp_ok) simp
qed

lemma ctx_pet: "ctx st' = ctx st \<Longrightarrow> pet st' = pet st"
  by (simp add: ctx_def)

lemma ctx_screen: "ctx st' = ctx st \<Longrightarrow> current_screen st' = current_screen st"
  by (simp add: ctx_def)

lemma ctx_game: "ctx st' = ctx st \<Longrightarrow> current_game st' = current_game st"
  by (simp add: ctx_def)

lemma pet_touch_game_menu:
  assumes "touch_game_menu ty now st = Some st'"
  shows "pet st' = pet st"
proof -
  have snake: "pet s' = pet st" if "init_snake now (st\<lparr>current_game := SNAKE\<rparr>) = Some s'" for s'
    using frame_init_snake [OF that] by (simp add: ctx_def)
  show ?thesis
    using assms snake
    by (auto simp: touch_game_menu_def Let_def
          ctx_pet [OF conjunct1 [OF frame_init_asteroids]]
          ctx_pet [OF conjunct1 [OF frame_init_tetris]]
          ctx_pet [OF conjunct1 [OF frame_init_breakout]]
        split: if_splits)
qed

lemma pet_touch_arcade:
  assumes "touch_arcade tx ty now st = Some st'"
  shows "pet st' = pet st"
proof (cases "current_game st")
  case GAME_MENU
  with assms pet_touch_game_menu show ?thesis
    by (simp add: touch_arcade_def)
next
  case ASTEROIDS
  with assms show ?thesis
    by (auto simp: touch_arcade_def
          ctx_pet [OF conjunct1 [OF frame_init_asteroids]]
          ctx_pet [OF conjunct1 [OF frame_steer_ship]])
next
  case TETRIS
  with assms show ?thesis
    by (auto simp: touch_arcade_def
          ctx_pet [OF conjunct1 [OF frame_init_tetris]]
          ctx_pet [OF conjunct1 [OF frame_touch_tetris]])
next
  case SNAKE
  with assms show ?thesis
    using frame_init_snake [of now st st']
    by (auto simp: touch_arcade_def ctx_def
          ctx_pet [OF conjunct1 [OF frame_touch_snake]] split: if_splits)
next
  case BREAKOUT
  with assms show ?thesis
    by (auto simp: touch_arcade_def
          ctx_pet [OF conjunct1 [OF frame_init_breakout]]
          ctx_pet [OF conjunct1 [OF frame_move_paddle]])
qed

lemma handle_touch_ok:
  assumes "handle_touch tx ty now st = Some st'" and "pet_stats_ok (pet st)"
  shows "pet_stats_ok (pet st')"
proof (cases "current_screen st = SCR_GAME_ARCADE")
  case True
  with assms(1) have "touch_arcade tx ty now st = Some st'"
    by (simp add: handle_touch_def)
  from pet_touch_arcade [OF this] assms(2) show ?thesis
    by simp
next
  case False
  show ?thesis
  proof (cases "current_screen st = SCR_GAME_TAMAGOTCHI")
    case True
    with False assms(1) have "st' = touch_tamagotchi tx ty st"
      by (simp add: handle_touch_def)
    with assms(2) show ?thesis
      by (simp add: touch_tamagotchi_ok)
  next
    case no_pet: False
    with False assms(1) have "pet st' = pet st"
      by (auto simp: handle_touch_def Let_def frame_process_button split: if_splits)
    with assms(2) show ?thesis
      by simp
  qed
qed

lemma pet_update_game:
  assumes "update_game now st = Some st'"
  shows "pet st' = pet st"
proof -
  have snake: "pet s' = pet st" if "update_snake now st = Some s'" for s'
    using ctx_update_snake [OF that] by (rule ctx_pet)
  show ?thesis
    using assms snake
    by (auto simp: update_game_def ctx_pet [OF ctx_update_asteroids]
          ctx_pet [OF ctx_update_tetris] ctx_pet [OF ctx_update_breakout]
        split: if_splits)
qed

text \<open>The three stages of a pass of \<open>loop\<close>.\<close>

lemma loop_stages:
  assumes "loop touch bk now st = Some st'"
  obtains st1 st3 where
    "(case touch of None \<Rightarrow> Some st | Some (tx, ty) \<Rightarrow> handle_touch tx ty now st) = Some st1"
    and "(let st2 = (if bk then process_button BTN_BACK now st1 else st1)
          in if current_screen st2 = SCR_GAME_ARCADE \<and> now - last_game_update st2 > 50
             then update_game now (st2\<lparr>last_game_update := now\<rparr>) else Some st2) = Some st3"
    and "st' = (if current_screen st3 = SCR_GAME_TAMAGOTCHI
                then loop_tamagotchi now st3 else st3)"
proof -
  let ?t = "case touch of None \<Rightarrow> Some st | Some (tx, ty) \<Rightarrow> handle_touch tx ty now st"
  obtain st1 where t: "?t = Some st1"
    using assms by (cases ?t) (simp_all add: loop_def)
  let ?g = "let st2 = (if bk then process_button BTN_BACK now st1 else st1)
          in if current_screen st2 = SCR_GAME_ARCADE \<and> now - last_game_update st2 > 50
             then update_game now (st2\<lparr>last_game_update := now\<rparr>) else Some st2"
  have l: "loop touch bk now st
      = (case ?g of None \<Rightarrow> None
         | Some st3 \<Rightarrow> Some (if current_screen st3 = SCR_GAME_TAMAGOTCHI
                             then loop_tamagotchi now st3 else st3))"
    unfolding loop_def t by (simp add: Let_def)
  obtain st3 where g: "?g = Some st3"
    using assms unfolding l by (cases ?g) simp_all
  have "st' = (if current_screen st3 = SCR_GAME_TAMAGOTCHI
                then loop_tamagotchi now st3 else st3)"
    using assms unfolding l g by simp
  with t g that show ?thesis
    by blast
qed

lemma loop_ok:
  assumes "loop touch bk now st = Some st'" and "pet_stats_ok (pet st)"
  shows "pet_stats_ok (pet st')"
proof -
  from assms(1) obtain st1 st3 where
    t: "(case touch of None \<Rightarrow> Some st | Some (tx, ty) \<Rightarrow> handle_touch tx ty now st) = Some st1"
    and g: "(let st2 = (if bk then process_button BTN_BACK now st1 else st1)
          in if current_screen st2 = SCR_GAME_ARCADE \<and> now - last_game_update st2 > 50
             then update_game now (st2\<lparr>last_game_update := now\<rparr>) else Some st2) = Some st3"
    and r: "st' = (if current_screen st3 = SCR_GAME_TAMAGOTCHI
                then loop_tamagotchi now st3 else st3)"
    by (rule loop_stages)
  have ok1: "pet_stats_ok (pet st1)"
  proof (cases touch)
    case None
    with t assms(2) show ?thesis by simp
  next
    case (Some p)
    obtain tx ty where p: "p = (tx, ty)" by (cases p)
    from t Some p have "handle_touch tx ty now st = Some st1" by simp
    from handle_touch_ok [OF this assms(2)] show ?thesis .
  qed
  define st2 where "st2 = (if bk then process_button BTN_BACK now st1 else st1)"
  have ok2: "pet_stats_ok (pet st2)"
    using ok1 by (simp add: st2_def frame_process_button)
  have g': "(if current_screen st2 = SCR_GAME_ARCADE \<and> now - last_game_update st2 > 50
             then update_game now (st2\<lparr>last_game_update := now\<rparr>) else Some st2) = Some st3"
    using g unfolding Let_def st2_def [symmetric] .
  have "pet st3 = pet st2"
  proof (cases "current_screen st2 = SCR_GAME_ARCADE \<and> now - last_game_update st2 > 50")
    case True
    with g' have "update_game now (st2\<lparr>last_game_update := now\<rparr>) = Some st3"
      by simp
    from pet_update_game [OF this] show ?thesis by simp
  next
    case False
    with g' have "Some st2 = Some st3"
      by auto
    then show ?thesis by simp
  qed
  with ok2 have ok3: "pet_stats_ok (pet st3)"
    by simp
  then show ?thesis
    unfolding r by (simp add: loop_tamagotchi_ok)
qed

lemma run_loop_ok:
  "run_loop inputs st = Some st' \<Longrightarrow> pet_stats_ok (pet st) \<Longrightarrow> pet_stats_ok (pet st')"
proof (induction inputs arbitrary: st)
  case Nil
  then show ?case by simp
next
  case (Cons i inputs)
  obtain touch bk now where i: "i = (touch, bk, now)"
    by (cases i)
  from Cons.prems(1) obtain s1 where l: "loop touch bk now st = Some s1"
    and r: "run_loop inputs s1 = Some st'"
    by (auto simp: i split: option.splits)
  from loop_ok [OF l Cons.prems(2)] Cons.IH [OF r] show ?case
    by simp
qed

lemma setup_watch_ok: "pet_stats_ok (pet (setup_watch t0))"
  by (simp add: setup_watch_def open_watchface_def init_pet_def pet_stats_ok_def stat_const_ok)

text \<open>
  Claim C2. In every state that a run of the firmware reaches from start-up, the pet's
  hunger, happiness, health and cleanliness lie in \<open>[0, 100]\<close>; and from any state in
  which they do, a touch on the pet screen (egg, feed, play, clean, medicine, petting)
  and a pass of the pet's part of \<open>loop\<close> (animation, 30-second decay, final clamps)
  lead to a state in which they do, whatever the touch point and the clock. No
  operation has a failing branch: the stats are clamped with \<open>min\<close> and \<open>max\<close>.
\<close>

theorem pet_stats_in_range:
  "(run_loop inputs (setup_watch t0) = Some st \<longrightarrow> pet_stats_ok (pet st))
   \<and> (pet_stats_ok (pet st0) \<longrightarrow>
        pet_stats_ok (pet (touch_tamagotchi tx ty st0))
        \<and> pet_stats_ok (pet (pet_decay st0))
        \<and> pet_stats_ok (pet (loop_tamagotchi now st0)))"
  using run_loop_ok [OF _ setup_watch_ok] touch_tamagotchi_ok pet_decay_ok loop_tamagotchi_ok
  by blast

text \<open>
  Witness: the sample run ends on the pet screen with a hatched pet whose stats are
  68, 54, 100 and 99; feeding the freshly initialised pet keeps the stats in range.
\<close>

lemma pet_demo_run:
  "map_option (\<lambda>st. (current_screen st, stage (pet st), hunger (pet st), happiness (pet st),
        health (pet st), cleanliness (pet st))) (run_loop pet_demo (setup_watch 0))
    = Some (SCR_GAME_TAMAGOTCHI, BABY, 68, 54, 100, 99)"
  by (simp add: pet_demo_def setup_watch_def open_watchface_def open_menu_def init_pet_def
        seed_rng_def power_on_def loop_def handle_touch_def process_button_def
        touch_tamagotchi_def loop_tamagotchi_def pet_animate_def pet_decay_def pet_clamp_def
        stat_up_def stat_down_def AMOLED_1IN8_HEIGHT_def AMOLED_1IN8_WIDTH_def MENU_COUNT_def
        GAMES_COUNT_def Let_def rng_def rng1_def rng_next_def split_beta)

theorem pet_stats_in_range_witness:
  "run_loop pet_demo (setup_watch 0) \<noteq> None
   \<and> pet_stats_ok (pet (the (run_loop pet_demo (setup_watch 0))))
   \<and> stage (pet (the (run_loop pet_demo (setup_watch 0)))) = BABY
   \<and> hunger (pet (the (run_loop pet_demo (setup_watch 0)))) = 68
   \<and> happiness (pet (the (run_loop pet_demo (setup_watch 0)))) = 54
   \<and> health (pet (the (run_loop pet_demo (setup_watch 0)))) = 100
   \<and> cleanliness (pet (the (run_loop pet_demo (setup_watch 0)))) = 99
   \<and> pet_stats_ok (pet (setup_watch 0))
   \<and> pet_stats_ok (pet (touch_tamagotchi 50 420 (setup_watch 0)))
   \<and> pet_stats_ok (pet (pet_decay (setup_watch 0)))
   \<and> pet_stats_ok (pet (loop_tamagotchi 40000 (setup_watch 0)))"
proof -
  from pet_demo_run obtain st where run: "run_loop pet_demo (setup_watch 0) = Some st"
    and v: "stage (pet st) = BABY" "hunger (pet st) = 68" "happiness (pet st) = 54"
      "health (pet st) = 100" "cleanliness (pet st) = 99"
    unfolding map_option_eq_Some by auto
  have s: "pet_stats_ok (pet (setup_watch 0))"
    by (simp add: setup_watch_def open_watchface_def init_pet_def pet_stats_ok_def
          stat_in_range_def)
  note t = pet_stats_in_range [where inputs = pet_demo and ?t0.0 = 0 and st = st
      and ?st0.0 = "setup_watch 0" and tx = 50 and ty = 420 and now = 40000]
  from t run have "pet_stats_ok (pet st)"
    by blast
  moreover from t s have "pet_stats_ok (pet (touch_tamagotchi 50 420 (setup_watch 0)))
      \<and> pet_stats_ok (pet (pet_decay (setup_watch 0)))
      \<and> pet_stats_ok (pet (loop_tamagotchi 40000 (setup_watch 0)))"
    by blast
  ultimately show ?thesis
    using run v s by simp
qed


section \<open>Rotation with wall kicks\<close>







section \<open>Clearing lines\<close>

lemma row_full_complete:
  assumes "y < length g" and "length (g ! y) = nat GRID_W"
  shows "row_full g y = complete_row (g ! y)"
proof -
  have "set (g ! y) = (\<lambda>x. g ! y ! x) ` {0..<nat GRID_W}"
    using assms(2) by (auto simp: set_conv_nth)
  then show ?thesis
    using assms(1) by (auto simp: row_full_def complete_row_def list_all_iff)
qed

lemma empty_row_incomplete: "\<not> complete_row empty_row"
  by (simp add: complete_row_def empty_row_def GRID_W_def list_all_iff)

lemma clear_row_eq:
  assumes "y < length g"
  shows "clear_row y g = empty_row # take y g @ drop (Suc y) g"
proof (rule nth_equalityI)
  show "length (clear_row y g) = length (empty_row # take y g @ drop (Suc y) g)"
    using assms by simp
next
  fix i
  assume "i < length (clear_row y g)"
  then have i: "i < length g"
    by simp
  show "clear_row y g ! i = (empty_row # take y g @ drop (Suc y) g) ! i"
  proof (cases "i = 0")
    case True
    then show ?thesis
      using clear_row_nth [OF assms i] by simp
  next
    case False
    then obtain j where j: "i = Suc j"
      by (cases i) simp_all
    show ?thesis
    proof (cases "i \<le> y")
      case True
      then show ?thesis
        using clear_row_nth [OF assms i] j assms by (simp add: nth_append)
    next
      case False
      then show ?thesis
        using clear_row_nth [OF assms i] j assms i by (simp add: nth_append)
    qed
  qed
qed

lemma rows_ok_clear_row:
  assumes "rows_ok g" and "y < length g"
  shows "rows_ok (clear_row y g)"
proof -
  have "set (take y g) \<subseteq> set g" "set (drop (Suc y) g) \<subseteq> set g"
    by (rule set_take_subset, rule set_drop_subset)
  then show ?thesis
    using assms(1) unfolding clear_row_eq [OF assms(2)]
    by (auto simp: rows_ok_def list_all_iff empty_row_def)
qed

lemma clear_scan_eq:
  "n \<le> length g \<Longrightarrow> rows_ok g \<Longrightarrow>
     clear_scan n g lines =
       (replicate (length (filter complete_row (take n g))) empty_row
          @ filter (\<lambda>r. \<not> complete_row r) (take n g) @ drop n g,
        lines + int (length (filter complete_row (take n g))))"
proof (induction n g lines rule: clear_scan.induct)
  case (1 n g lines)
  show ?case
  proof (cases n)
    case 0
    then show ?thesis
      by (simp add: clear_scan.simps)
  next
    case (Suc y)
    have y: "y < length g"
      using "1.prems"(1) Suc by simp
    have ry: "length (g ! y) = nat GRID_W"
      using "1.prems"(2) y by (simp add: rows_ok_def list_all_iff)
    have full: "row_full g y = complete_row (g ! y)"
      by (rule row_full_complete [OF y ry])
    have tk: "take (Suc y) g = take y g @ [g ! y]"
      by (rule take_Suc_conv_app_nth [OF y])
    have ym: "n - 1 = y" and n0: "n \<noteq> 0"
      using Suc by simp_all
    show ?thesis
    proof (cases "row_full g y")
      case True
      let ?g = "clear_row y g"
      have g': "?g = empty_row # take y g @ drop (Suc y) g"
        by (rule clear_row_eq [OF y])
      have tk': "take (Suc y) ?g = empty_row # take y g"
        unfolding g' using y by simp
      have dr': "drop (Suc y) ?g = drop (Suc y) g"
        unfolding g' using y by simp
      have "clear_scan n ?g (lines + 1) =
          (replicate (length (filter complete_row (take n ?g))) empty_row
             @ filter (\<lambda>r. \<not> complete_row r) (take n ?g) @ drop n ?g,
           lines + 1 + int (length (filter complete_row (take n ?g))))"
        using True "1.prems" y n0
        by (intro "1.IH"(1) [unfolded ym]) (simp_all add: rows_ok_clear_row)
      then have "clear_scan n ?g (lines + 1) =
          (replicate (length (filter complete_row (take y g))) empty_row
             @ empty_row # filter (\<lambda>r. \<not> complete_row r) (take y g) @ drop (Suc y) g,
           lines + 1 + int (length (filter complete_row (take y g))))"
        unfolding Suc tk' dr' by (simp add: empty_row_incomplete)
      moreover have "clear_scan n g lines = clear_scan n ?g (lines + 1)"
        using True Suc by (subst clear_scan.simps) simp
      ultimately show ?thesis
        using True full unfolding Suc tk by (simp add: replicate_app_Cons_same)
    next
      case False
      have "clear_scan y g lines =
          (replicate (length (filter complete_row (take y g))) empty_row
             @ filter (\<lambda>r. \<not> complete_row r) (take y g) @ drop y g,
           lines + int (length (filter complete_row (take y g))))"
        using False "1.prems" y n0 by (intro "1.IH"(2) [unfolded ym]) simp_all
      moreover have "clear_scan n g lines = clear_scan y g lines"
        using False Suc by (subst clear_scan.simps) simp
      moreover have "drop y g = g ! y # drop (Suc y) g"
        by (rule Cons_nth_drop_Suc [OF y, symmetric])
      ultimately show ?thesis
        using False full unfolding Suc tk by simp
    qed
  qed
qed

lemma clear_lines_effect:
  assumes "grid_ok (tetris_grid st)"
  shows "(let g = tetris_grid st;
              k = length (filter complete_row g);
              st' = tetris_clear_lines st
          in tetris_grid st' = replicate k empty_row @ filter (\<lambda>r. \<not> complete_row r) g
             \<and> game_score st' = game_score st + 100 * int k
             \<and> (if k > 0 \<and> tetris_lines_cleared st + int k \<ge> 10
                 then tetris_drop_speed st' = max 100 (tetris_drop_speed st - 50)
                      \<and> tetris_lines_cleared st' = 0
                 else tetris_drop_speed st' = tetris_drop_speed st
                      \<and> tetris_lines_cleared st' = tetris_lines_cleared st + int k))"
proof -
  let ?g = "tetris_grid st"
  have len: "nat GRID_H \<le> length ?g" "take (nat GRID_H) ?g = ?g" "drop (nat GRID_H) ?g = []"
    using assms by (simp_all add: grid_ok_def)
  have "rows_ok ?g"
    using assms by (simp add: grid_ok_def)
  from clear_scan_eq [OF len(1) this, of 0]
  have "clear_scan (nat GRID_H) ?g 0 =
      (replicate (length (filter complete_row ?g)) empty_row
         @ filter (\<lambda>r. \<not> complete_row r) ?g,
       int (length (filter complete_row ?g)))"
    unfolding len by simp
  then show ?thesis
    by (simp add: tetris_clear_lines_def Let_def)
qed

text \<open>
  Claim C6. On a well-formed grid with \<open>k\<close> complete rows, \<open>tetris_clear_lines\<close> leaves
  \<open>k\<close> empty rows at the top followed by the rows that were not complete, in their
  order: exactly the complete rows are gone and every row above a removed one has moved
  down. The score grows by \<open>100 * k\<close>. The counter \<open>tetris_lines_cleared\<close> grows by
  \<open>k\<close>; when a clearing step brings it to 10 or more, the drop interval becomes
  \<open>max 100 (interval - 50)\<close> and the counter restarts at 0; otherwise the interval is
  unchanged.
\<close>

theorem tetris_clear_lines_rows:
  assumes "grid_ok (tetris_grid st)"
  shows "(let g = tetris_grid st;
              k = length (filter complete_row g);
              st' = tetris_clear_lines st
          in tetris_grid st' = replicate k empty_row @ filter (\<lambda>r. \<not> complete_row r) g
             \<and> game_score st' = game_score st + 100 * int k
             \<and> (if k > 0 \<and> tetris_lines_cleared st + int k \<ge> 10
                 then tetris_drop_speed st' = max 100 (tetris_drop_speed st - 50)
                      \<and> tetris_lines_cleared st' = 0
                 else tetris_drop_speed st' = tetris_drop_speed st
                      \<and> tetris_lines_cleared st' = tetris_lines_cleared st + int k))"
  using assms by (rule clear_lines_effect)

text \<open>
  Witness: two complete rows with a partly filled row between them and one below. The
  two rows go, the partly filled rows end in rows 18 and 19 in their order, the score
  grows from 700 to 900, and the counter passes 10: the interval drops from 500 to 450
  and the counter restarts.
\<close>

theorem tetris_clear_lines_rows_witness:
  "grid_ok (tetris_grid lines_demo)
   \<and> tetris_grid (tetris_clear_lines lines_demo)
       = replicate 18 empty_row @ [[1,1,0,0,0,0,0,0,0,2], [0,4,4,0,0,0,0,0,0,0]]
   \<and> game_score (tetris_clear_lines lines_demo) = 900
   \<and> tetris_drop_speed (tetris_clear_lines lines_demo) = 450
   \<and> tetris_lines_cleared (tetris_clear_lines lines_demo) = 0"
proof -
  have g: "tetris_grid lines_demo = replicate 16 empty_row
        @ [replicate 10 3, [1,1,0,0,0,0,0,0,0,2], replicate 10 5, [0,4,4,0,0,0,0,0,0,0]]"
      "tetris_lines_cleared lines_demo = 9" "game_score lines_demo = 700"
      "tetris_drop_speed lines_demo = 500"
    by (simp_all add: lines_demo_def power_on_def)
  have ok: "grid_ok (tetris_grid lines_demo)"
    unfolding g
    by (simp add: grid_ok_def rows_ok_def GRID_H_def GRID_W_def empty_row_def list_all_iff)
  have f: "filter complete_row (tetris_grid lines_demo) = [replicate 10 3, replicate 10 5]"
      "filter (\<lambda>r. \<not> complete_row r) (tetris_grid lines_demo)
         = replicate 16 empty_row @ [[1,1,0,0,0,0,0,0,0,2], [0,4,4,0,0,0,0,0,0,0]]"
    unfolding g
    by (simp_all add: filter_replicate complete_row_def list_all_iff empty_row_def GRID_W_def)
  have "replicate 18 empty_row = replicate 2 empty_row @ replicate 16 empty_row"
    by (simp add: replicate_add [symmetric])
  then have r: "replicate 18 empty_row = empty_row # empty_row # replicate 16 empty_row"
    by (simp add: numeral_2_eq_2)
  from tetris_clear_lines_rows [OF ok] show ?thesis
    unfolding Let_def f r using ok g(2-) by simp
qed

lemma four_rows_facts:
  "grid_ok four_rows" "length (filter complete_row four_rows) = 4"
  "filter complete_row four_rows \<noteq> []"
  by (simp_all add: four_rows_def grid_ok_def rows_ok_def GRID_H_def GRID_W_def empty_row_def
        list_all_iff filter_replicate complete_row_def)

lemma clear_four_effect:
  "game_score (clear_four st) = game_score st + 400
   \<and> (if tetris_lines_cleared st + 4 \<ge> 10
       then tetris_drop_speed (clear_four st) = max 100 (tetris_drop_speed st - 50)
            \<and> tetris_lines_cleared (clear_four st) = 0
       else tetris_drop_speed (clear_four st) = tetris_drop_speed st
            \<and> tetris_lines_cleared (clear_four st) = tetris_lines_cleared st + 4)"
  using clear_lines_effect [of "st\<lparr>tetris_grid := four_rows\<rparr>"]
  by (simp add: four_rows_facts clear_four_def Let_def)

lemma fresh_tetris:
  "game_score (init_tetris now st) = 0" "tetris_drop_speed (init_tetris now st) = 500"
  "tetris_lines_cleared (init_tetris now st) = 0"
  by (simp_all add: init_tetris_def Let_def split_beta rng_snds)

text \<open>
  Counterexample to the reading "one decrease for every ten lines cleared since the
  game began": five steps of four lines each from a fresh game clear twenty lines (the
  score is 2000), but the third step takes the counter from 8 to 12 and restarts it at
  0, dropping the two lines beyond the tenth; after the fifth step the counter is at 8
  and the interval has decreased once, to 450, not twice.
\<close>

theorem tetris_speedup_drops_excess:
  "game_score ((clear_four ^^ 5) (init_tetris 0 power_on)) = 100 * 20
   \<and> tetris_drop_speed (init_tetris 0 power_on) = 500
   \<and> tetris_drop_speed ((clear_four ^^ 5) (init_tetris 0 power_on)) = 450
   \<and> tetris_drop_speed ((clear_four ^^ 5) (init_tetris 0 power_on)) \<noteq> 500 - 50 * (20 div 10)
   \<and> tetris_lines_cleared ((clear_four ^^ 3) (init_tetris 0 power_on)) = 0
   \<and> tetris_lines_cleared ((clear_four ^^ 5) (init_tetris 0 power_on)) = 8"
proof -
  define s0 where "s0 = init_tetris 0 power_on"
  define s1 where "s1 = clear_four s0"
  define s2 where "s2 = clear_four s1"
  define s3 where "s3 = clear_four s2"
  define s4 where "s4 = clear_four s3"
  define s5 where "s5 = clear_four s4"
  have f0: "game_score s0 = 0" "tetris_drop_speed s0 = 500" "tetris_lines_cleared s0 = 0"
    by (simp_all add: s0_def fresh_tetris)
  have f1: "game_score s1 = 400" "tetris_drop_speed s1 = 500" "tetris_lines_cleared s1 = 4"
    using clear_four_effect [of s0] by (simp_all add: s1_def f0)
  have f2: "game_score s2 = 800" "tetris_drop_speed s2 = 500" "tetris_lines_cleared s2 = 8"
    using clear_four_effect [of s1] by (simp_all add: s2_def f1)
  have f3: "game_score s3 = 1200" "tetris_drop_speed s3 = 450" "tetris_lines_cleared s3 = 0"
    using clear_four_effect [of s2] by (simp_all add: s3_def f2)
  have f4: "game_score s4 = 1600" "tetris_drop_speed s4 = 450" "tetris_lines_cleared s4 = 4"
    using clear_four_effect [of s3] by (simp_all add: s4_def f3)
  have f5: "game_score s5 = 2000" "tetris_drop_speed s5 = 450" "tetris_lines_cleared s5 = 8"
    using clear_four_effect [of s4] by (simp_all add: s5_def f4)
  have "(clear_four ^^ 3) s0 = s3" "(clear_four ^^ 5) s0 = s5"
    by (simp_all add: eval_nat_numeral s1_def s2_def s3_def s4_def s5_def)
  then show ?thesis
    using f0 f3 f5 by (simp add: s0_def [symmetric])
qed


section \<open>Snake: reversing and eating\<close>

lemma touch_snake_fields:
  "snake_x (touch_snake tx ty st) = snake_x st"
  "snake_y (touch_snake tx ty st) = snake_y st"
  "snake_length (touch_snake tx ty st) = snake_length st"
  "snake_last_move (touch_snake tx ty st) = snake_last_move st"
  "snake_speed (touch_snake tx ty st) = snake_speed st"
  "game_over (touch_snake tx ty st) = game_over st"
  by (simp_all add: touch_snake_def)

lemma touch_snake_dir:
  "snake_dir (touch_snake tx ty st) =
     (if uint tx < 122 then 2 else if uint tx > 245 then 0 else if uint ty < 224 then 3 else 1)"
  by (simp add: touch_snake_def AMOLED_1IN8_WIDTH_def AMOLED_1IN8_HEIGHT_def)

lemma reversed_ahead:
  assumes "travels st d" and "snake_dir s = opposite d"
    and "snake_x s = snake_x st" and "snake_y s = snake_y st"
  shows "snake_ahead_x s = snake_x st ! 1 \<and> snake_ahead_y s = snake_y st ! 1"
proof -
  from assms(1) consider "d = 0" | "d = 1" | "d = 2" | "d = 3"
    by (auto simp: travels_def)
  then show ?thesis
    using assms by cases (simp_all add: travels_def opposite_def snake_ahead_x_def snake_ahead_y_def)
qed

lemma second_segment_collides:
  assumes "2 \<le> snake_length s"
  shows "snake_check_collision (snake_x s ! 1) (snake_y s ! 1) s"
proof -
  have "1 \<in> set [0..<nat (snake_length s)]"
    using assms by simp
  then have "list_ex (\<lambda>i. snake_x s ! i = snake_x s ! 1 \<and> snake_y s ! i = snake_y s ! 1)
      [0..<nat (snake_length s)]"
    unfolding list_ex_iff by blast
  then show ?thesis
    by (simp add: snake_check_collision_def)
qed

lemma snake_die_over: "game_over (snake_die st)"
  by (simp add: snake_die_def Let_def)

text \<open>
  Claim C10. While Snake runs, a touch sets \<open>snake_dir\<close> to the direction of the zone
  touched whatever the direction was: \<open>handle_touch\<close> has no test against a reversal.
  If the snake has at least two segments and travels in direction \<open>d\<close>, and the touch
  commands the opposite of \<open>d\<close>, then at the next tick that is due the cell ahead of
  the head is the cell of the second segment, and \<open>update_snake\<close> returns with
  \<open>game_over\<close> set.
\<close>

theorem snake_reversal_ends_game:
  assumes "current_screen st = SCR_GAME_ARCADE" and "current_game st = SNAKE"
    and "\<not> game_over st" and "2 \<le> snake_length st" and "travels st d"
    and "snake_dir (touch_snake tx ty st) = opposite d"
    and "\<not> now - snake_last_move st < word_of_int (snake_speed st)"
  shows "handle_touch tx ty t st = Some (touch_snake tx ty st)
    \<and> snake_dir (touch_snake tx ty st) =
         (if uint tx < 122 then 2 else if uint tx > 245 then 0
          else if uint ty < 224 then 3 else 1)
    \<and> snake_ahead_x (touch_snake tx ty st) = snake_x st ! 1
    \<and> snake_ahead_y (touch_snake tx ty st) = snake_y st ! 1
    \<and> map_option game_over (update_snake now (touch_snake tx ty st)) = Some True"
proof -
  let ?s = "touch_snake tx ty st"
  define s1 where "s1 = ?s\<lparr>snake_last_move := now\<rparr>"
  have h: "handle_touch tx ty t st = Some ?s"
    using assms(1-3) by (simp add: handle_touch_def touch_arcade_def)
  have a: "snake_ahead_x ?s = snake_x st ! 1 \<and> snake_ahead_y ?s = snake_y st ! 1"
    by (rule reversed_ahead [OF assms(5,6)]) (simp_all add: touch_snake_fields)
  have "snake_ahead_x s1 = snake_ahead_x ?s" "snake_ahead_y s1 = snake_ahead_y ?s"
    by (simp_all add: s1_def snake_ahead_x_def snake_ahead_y_def)
  moreover have "snake_x s1 = snake_x st" "snake_y s1 = snake_y st"
    by (simp_all add: s1_def touch_snake_fields)
  ultimately have a1: "snake_ahead_x s1 = snake_x s1 ! 1" "snake_ahead_y s1 = snake_y s1 ! 1"
    using a by simp_all
  have "2 \<le> snake_length s1"
    using assms(4) by (simp add: s1_def touch_snake_fields)
  then have c: "snake_check_collision (snake_ahead_x s1) (snake_ahead_y s1) s1"
    unfolding a1 by (rule second_segment_collides)
  have "update_snake now ?s = Some (snake_die s1)"
    using assms(3,7) c by (intro update_snake_collide) (simp_all add: touch_snake_fields s1_def)
  then have "map_option game_over (update_snake now ?s) = Some True"
    by (simp add: snake_die_over)
  with h a touch_snake_dir show ?thesis
    by simp
qed

lemma init_snake_start: "init_snake 0 snake_start = Some snake_begun"
  unfolding init_snake_def Let_def
  apply (subst init_snake_food.simps)
  apply code_simp
  done

text \<open>
  Witness: the snake as \<open>init_snake\<close> leaves it travels right with its second segment
  at \<open>(9, 15)\<close>; a touch in the left third commands left, and the tick at 300 ms ends the
  game.
\<close>

theorem snake_reversal_ends_game_witness:
  "init_snake 0 snake_start = Some snake_begun
   \<and> travels snake_begun 0
   \<and> handle_touch 50 200 100 snake_begun = Some (touch_snake 50 200 snake_begun)
   \<and> snake_dir (touch_snake 50 200 snake_begun) = 2
   \<and> snake_ahead_x (touch_snake 50 200 snake_begun) = 9
   \<and> snake_ahead_y (touch_snake 50 200 snake_begun) = 15
   \<and> map_option game_over (update_snake 300 (touch_snake 50 200 snake_begun)) = Some True"
proof -
  have f: "current_screen snake_begun = SCR_GAME_ARCADE" "current_game snake_begun = SNAKE"
      "\<not> game_over snake_begun" "2 \<le> snake_length snake_begun"
      "snake_x snake_begun ! 1 = 9" "snake_y snake_begun ! 1 = 15"
      "\<not> 300 - snake_last_move snake_begun < word_of_int (snake_speed snake_begun)"
    by (simp_all add: snake_begun_def snake_start_def power_on_def)
  have tr: "travels snake_begun 0"
    by (simp add: travels_def snake_begun_def)
  have d: "snake_dir (touch_snake 50 200 snake_begun) = opposite 0"
    by (simp add: touch_snake_dir opposite_def)
  from snake_reversal_ends_game [OF f(1-4) tr d f(7), of 100] show ?thesis
    using init_snake_start tr f(5,6) by (simp add: opposite_def)
qed

text \<open>
  Claim C4, at a failing input. Snake is started with the generator in state 25045: the
  food is drawn at \<open>(12, 15)\<close>, two cells ahead of the head at \<open>(10, 15)\<close>. The first
  tick moves the head to \<open>(11, 15)\<close>. At the second tick the cell ahead is the food
  cell and is free: the length grows from 4 to 5, the score by 10, the interval falls
  from 300 to 295, and the new food is drawn at \<open>(12, 15)\<close> again, which the test
  accepts, because it compares with the segments before the move. After the move the
  food lies under the head.
\<close>

theorem snake_food_under_head:
  "map_option (\<lambda>st. (snake_length st, snake_speed st, game_score st,
                      take 5 (snake_x st), take 5 (snake_y st),
                      snake_food_x st, snake_food_y st, game_over st))
     (Option.bind (Option.bind (init_snake 0 snake_start) (update_snake 300))
        (update_snake 600))
   = Some (5, 295, 10, [12, 11, 10, 9, 8], [15, 15, 15, 15, 15], 12, 15, False)"
  unfolding init_snake_start
  apply code_simp
  apply (subst snake_place_food.simps)
  apply code_simp
  done


section \<open>Breakout: the bounce off the paddle\<close>

lemma brick_out_of_reach:
  assumes "ball_y st > 126" and "row < 6"
  shows "\<not> ball_meets_brick st row col"
proof -
  have "int row \<le> 5"
    using assms(2) by simp
  then have "real_of_int (50 + int row * 12 + 12) \<le> 122"
    by simp
  then show ?thesis
    using assms(1) by (simp add: ball_meets_brick_def Let_def ball_radius_def BRICK_H_def)
qed

lemma brick_cols_miss:
  "ball_y st > 126 \<Longrightarrow> row < 6 \<Longrightarrow> brick_cols row cols st = st"
  by (induction cols) (simp_all add: brick_out_of_reach)

lemma brick_rows_fold_miss:
  "ball_y st > 126 \<Longrightarrow> \<forall>row \<in> set rows. row < 6 \<Longrightarrow>
     fold (\<lambda>row. brick_cols row cols) rows st = st"
  by (induction rows) (simp_all add: brick_cols_miss)

lemma brick_rows_miss: "ball_y st > 126 \<Longrightarrow> brick_rows st = st"
  unfolding brick_rows_def by (rule brick_rows_fold_miss) (simp_all add: BRICK_ROWS_def)

lemma paddle_bounce_hit:
  assumes "on_paddle s"
  shows "paddle_bounce s
       = s\<lparr>ball_dy := - \<bar>ball_dy s\<bar>,
           ball_dx := ((ball_x s - paddle_x s) / real_of_int paddle_w - 0.5) * 4\<rparr>"
  using assms by (simp add: paddle_bounce_def on_paddle_def Let_def)

lemma update_breakout_on_paddle:
  assumes "\<not> game_over st" and "on_paddle (ball_moved st)"
  obtains v where "update_breakout st = paddle_bounce ((ball_moved st)\<lparr>ball_dx := v\<rparr>)"
proof -
  let ?m = "ball_moved st"
  define v where "v = (if ball_x ?m \<le> real_of_int ball_radius
                     \<or> ball_x ?m \<ge> real_of_int (AMOLED_1IN8_WIDTH - ball_radius)
                    then - ball_dx st else ball_dx st)"
  let ?s = "?m\<lparr>ball_dx := v\<rparr>"
  have y: "396 \<le> ball_y ?m" "ball_y ?m \<le> 412"
    using assms(2) by (simp_all add: on_paddle_def paddle_y_def paddle_h_def ball_radius_def)
  have p: "on_paddle ?s"
    using assms(2) by (simp add: on_paddle_def)
  have "ball_y (paddle_bounce ?s) = ball_y ?m"
    by (simp add: paddle_bounce_hit [OF p])
  then have far: "ball_y (paddle_bounce ?s) > 126"
    using y by simp
  have s2: "(if ball_x ?m \<le> real_of_int ball_radius
                \<or> ball_x ?m \<ge> real_of_int (AMOLED_1IN8_WIDTH - ball_radius)
             then ?m\<lparr>ball_dx := - ball_dx ?m\<rparr> else ?m) = ?s"
    by (simp add: v_def ball_moved_def)
  have y2: "\<not> ball_y ?s \<le> real_of_int ball_radius"
      "\<not> ball_y ?s \<ge> real_of_int (AMOLED_1IN8_HEIGHT - ball_radius)"
    using y by (simp_all add: ball_radius_def AMOLED_1IN8_HEIGHT_def)
  have "update_breakout st = brick_rows (paddle_bounce ?s)"
    unfolding update_breakout_def Let_def ball_moved_def [symmetric] s2
    using assms(1) y2 by simp
  then have "update_breakout st = paddle_bounce ?s"
    using brick_rows_miss [OF far] by simp
  then show ?thesis
    by (rule that)
qed

text \<open>
  Claim C8. When the paddle test holds for the moved ball and the vertical velocity
  is not zero, the tick leaves \<open>ball_dy\<close> negative, equal to minus its absolute value,
  whatever its sign was, and \<open>ball_dx\<close> equal to \<open>(hit_pos - 0.5) * 4\<close>, where
  \<open>hit_pos\<close>, the offset of the ball across the paddle divided by the paddle's width,
  lies in \<open>[0, 1]\<close>. Nothing later in the tick touches the velocity: the bricks are
  out of reach of a ball at the paddle. The same holds of \<open>paddle_bounce\<close> alone.
\<close>

theorem paddle_hit_sends_ball_up:
  assumes "\<not> game_over st" and "ball_dy st \<noteq> 0" and "on_paddle (ball_moved st)"
  shows "(let hit_pos = (ball_x st + ball_dx st - paddle_x st) / real_of_int paddle_w;
              st' = update_breakout st
          in ball_dy st' < 0
             \<and> ball_dy st' = - \<bar>ball_dy st\<bar>
             \<and> ball_dx st' = (hit_pos - 0.5) * 4
             \<and> 0 \<le> hit_pos \<and> hit_pos \<le> 1
             \<and> ball_dy (paddle_bounce (ball_moved st)) < 0
             \<and> ball_dx (paddle_bounce (ball_moved st)) = (hit_pos - 0.5) * 4)"
proof -
  let ?m = "ball_moved st"
  have f: "ball_x ?m = ball_x st + ball_dx st" "paddle_x ?m = paddle_x st"
      "ball_dy ?m = ball_dy st"
    by (simp_all add: ball_moved_def)
  have r: "0 \<le> ball_x ?m - paddle_x ?m" "ball_x ?m - paddle_x ?m \<le> 60"
    using assms(3) by (simp_all add: on_paddle_def paddle_w_def)
  have h: "0 \<le> (ball_x ?m - paddle_x ?m) / real_of_int paddle_w"
      "(ball_x ?m - paddle_x ?m) / real_of_int paddle_w \<le> 1"
    using r by (simp_all add: paddle_w_def)
  have neg: "- \<bar>ball_dy st\<bar> < 0"
    using assms(2) by simp
  have p: "on_paddle (?m\<lparr>ball_dx := v\<rparr>)" for v
    using assms(3) by (simp add: on_paddle_def)
  obtain v where upd: "update_breakout st = paddle_bounce (?m\<lparr>ball_dx := v\<rparr>)"
    using assms(1,3) by (rule update_breakout_on_paddle)
  have u: "ball_dy (update_breakout st) = - \<bar>ball_dy st\<bar>"
      "ball_dx (update_breakout st)
        = ((ball_x ?m - paddle_x ?m) / real_of_int paddle_w - 0.5) * 4"
    unfolding upd by (simp_all add: paddle_bounce_hit [OF p] f)
  have b: "ball_dy (paddle_bounce ?m) = - \<bar>ball_dy st\<bar>"
      "ball_dx (paddle_bounce ?m)
        = ((ball_x ?m - paddle_x ?m) / real_of_int paddle_w - 0.5) * 4"
    by (simp_all add: paddle_bounce_hit [OF assms(3)] f)
  show ?thesis
    unfolding Let_def using u b h neg by (simp add: f)
qed

text \<open>
  Witness: the ball at \<open>(184, 398)\<close> moving by \<open>(1, 3)\<close> meets the paddle spanning
  154 to 214 at \<open>(185, 401)\<close>; after the tick \<open>ball_dy = - 3\<close> and
  \<open>ball_dx = (31/60 - 1/2) * 4 = 1/15\<close>.
\<close>

theorem paddle_hit_sends_ball_up_witness:
  "\<not> game_over paddle_demo \<and> ball_dy paddle_demo = 3 \<and> on_paddle (ball_moved paddle_demo)
   \<and> ball_dy (update_breakout paddle_demo) = - 3
   \<and> ball_dx (update_breakout paddle_demo) = 1 / 15"
proof -
  have f: "\<not> game_over paddle_demo" "ball_dy paddle_demo = 3" "ball_dx paddle_demo = 1"
      "ball_x paddle_demo = 184" "paddle_x paddle_demo = 154"
    by (simp_all add: paddle_demo_def init_breakout_def AMOLED_1IN8_WIDTH_def paddle_w_def)
  have p: "on_paddle (ball_moved paddle_demo)"
    by (simp add: on_paddle_def ball_moved_def paddle_demo_def init_breakout_def
          AMOLED_1IN8_WIDTH_def paddle_w_def paddle_y_def paddle_h_def ball_radius_def)
  have n: "ball_dy paddle_demo \<noteq> 0"
    by (simp add: f)
  from paddle_hit_sends_ball_up [OF f(1) n p] show ?thesis
    using p by (simp add: Let_def f paddle_w_def)
qed


section \<open>Asteroids: a bullet hits an asteroid\<close>
















section \<open>The high scores change at the end of a game only\<close>

lemma ship_collisions_record:
  "high_scores (ship_collisions xs st) = high_scores st
   \<or> (game_over (ship_collisions xs st)
      \<and> high_scores st ! 0 < game_score (ship_collisions xs st)
      \<and> high_scores (ship_collisions xs st)
          = (high_scores st)[0 := game_score (ship_collisions xs st)])"
  by (induction xs st rule: ship_collisions.induct) (simp_all add: Let_def)

lemma update_asteroids_record:
  assumes "high_scores (update_asteroids now st) \<noteq> high_scores st"
  shows "new_record 0 st (update_asteroids now st)"
proof -
  have run: "\<not> game_over st" "s_alive (ship st)"
      "list_ex (\<lambda>i. a_active (asteroids st ! i)) [0..<15]"
    using assms by (auto simp add: update_asteroids_def frame_init_asteroids split: if_splits)
  define s where "s = bullet_collisions
      (st\<lparr>ship := move_ship (ship st), bullets := map (move_bullet now) (bullets st),
          asteroids := map move_asteroid (asteroids st)\<rparr>)"
  have u: "update_asteroids now st = ship_collisions [0..<15] s"
    using run by (simp add: update_asteroids_def Let_def s_def)
  have h: "high_scores s = high_scores st"
    by (simp add: s_def frame_bullet_collisions)
  from ship_collisions_record [of "[0..<15]" s] assms run(1) show ?thesis
    unfolding u h new_record_def by auto
qed

lemma tetris_spawn_record:
  "high_scores (tetris_spawn_new_piece st) = high_scores st
   \<or> (game_over (tetris_spawn_new_piece st)
      \<and> high_scores st ! 1 < game_score (tetris_spawn_new_piece st)
      \<and> high_scores (tetris_spawn_new_piece st)
          = (high_scores st)[1 := game_score (tetris_spawn_new_piece st)])"
  by (simp add: tetris_spawn_new_piece_def split_beta rng_snds Let_def)

lemma update_tetris_record:
  assumes "high_scores (update_tetris now st) \<noteq> high_scores st"
  shows "new_record 1 st (update_tetris now st)"
proof -
  define s1 where "s1 = st\<lparr>tetris_last_drop := now\<rparr>"
  define s where "s = tetris_clear_lines (tetris_place_piece s1)"
  have run: "\<not> game_over st" and u: "update_tetris now st = tetris_spawn_new_piece s"
    using assms unfolding s_def s1_def
    by (auto simp add: update_tetris_def Let_def split: if_splits)
  have h: "high_scores s = high_scores st"
    by (simp add: s_def s1_def frame_tetris_clear_lines frame_tetris_place_piece)
  from tetris_spawn_record [of s] assms run show ?thesis
    unfolding u h new_record_def by auto
qed

lemma snake_die_record:
  "high_scores (snake_die st) = high_scores st
   \<or> (game_over (snake_die st) \<and> high_scores st ! 2 < game_score (snake_die st)
      \<and> high_scores (snake_die st) = (high_scores st)[2 := game_score (snake_die st)])"
  by (simp add: snake_die_def Let_def)

lemma update_snake_record:
  assumes "update_snake now st = Some st'" and "high_scores st' \<noteq> high_scores st"
  shows "new_record 2 st st'"
proof -
  define s1 where "s1 = st\<lparr>snake_last_move := now\<rparr>"
  have h1: "high_scores s1 = high_scores st"
    by (simp add: s1_def)
  have run: "\<not> game_over st" "\<not> now - snake_last_move st < word_of_int (snake_speed st)"
    using assms update_snake_idle [of st now] by auto
  show ?thesis
  proof (cases "snake_check_collision (snake_ahead_x s1) (snake_ahead_y s1) s1")
    case True
    from update_snake_collide [OF run s1_def True] assms(1) have "st' = snake_die s1"
      by simp
    with snake_die_record [of s1] assms(2) run(1) show ?thesis
      unfolding h1 new_record_def by auto
  next
    case free: False
    show ?thesis
    proof (cases "snake_ahead_x s1 = snake_food_x s1 \<and> snake_ahead_y s1 = snake_food_y s1")
      case True
      then have "update_snake now st
          = map_option (snake_advance (snake_ahead_x s1) (snake_ahead_y s1)) (snake_eat s1)"
        using update_snake_eat [OF run s1_def free] by simp
      with assms(1) obtain s2 where e: "snake_eat s1 = Some s2"
        and r: "st' = snake_advance (snake_ahead_x s1) (snake_ahead_y s1) s2"
        by auto
      have "high_scores st' = high_scores st"
        using frame_snake_eat [OF e] h1 by (simp add: r frame_snake_advance)
      with assms(2) show ?thesis
        by simp
    next
      case False
      from update_snake_move [OF run s1_def free False] assms(1)
      have "st' = snake_advance (snake_ahead_x s1) (snake_ahead_y s1) s1"
        by simp
      then have "high_scores st' = high_scores st"
        using h1 by (simp add: frame_snake_advance)
      with assms(2) show ?thesis
        by simp
    qed
  qed
qed

lemma update_breakout_record:
  assumes "high_scores (update_breakout st) \<noteq> high_scores st"
  shows "new_record 3 st (update_breakout st)"
  using assms unfolding new_record_def
  by (auto simp add: update_breakout_def Let_def frame_brick_rows frame_paddle_bounce
      split: if_splits)

lemma update_game_record:
  assumes "update_game now st = Some st'" and "high_scores st' \<noteq> high_scores st"
  shows "\<exists>v. score_slot (current_game st) = Some v \<and> new_record v st st'"
proof (cases "current_game st")
  case GAME_MENU
  with assms show ?thesis
    by (simp add: update_game_def)
next
  case ASTEROIDS
  with assms update_asteroids_record [of now st] show ?thesis
    by (auto simp add: update_game_def)
next
  case TETRIS
  with assms update_tetris_record [of now st] show ?thesis
    by (auto simp add: update_game_def)
next
  case SNAKE
  with assms update_snake_record [of now st st'] show ?thesis
    by (auto simp add: update_game_def)
next
  case BREAKOUT
  with assms update_breakout_record [of st] show ?thesis
    by (auto simp add: update_game_def)
qed

text \<open>No touch writes the high scores, whatever the screen and the game.\<close>

lemma touch_arcade_keeps_scores:
  assumes "touch_arcade tx ty now st = Some st'"
  shows "high_scores st' = high_scores st"
proof -
  have snake: "high_scores s' = high_scores s" if "init_snake now s = Some s'" for s s'
    using frame_init_snake [OF that] by simp
  show ?thesis
  proof (cases "current_game st")
    case GAME_MENU
    with assms snake [of "st\<lparr>current_game := SNAKE\<rparr>" st'] show ?thesis
      by (auto simp add: touch_arcade_def touch_game_menu_def Let_def frame_init_asteroids
          frame_init_tetris frame_init_breakout split: if_splits)
  next
    case ASTEROIDS
    with assms show ?thesis
      by (auto simp add: touch_arcade_def frame_init_asteroids frame_steer_ship)
  next
    case TETRIS
    with assms show ?thesis
      by (auto simp add: touch_arcade_def frame_init_tetris frame_touch_tetris)
  next
    case SNAKE
    with assms snake [of st st'] show ?thesis
      by (auto simp add: touch_arcade_def frame_touch_snake split: if_splits)
  next
    case BREAKOUT
    with assms show ?thesis
      by (auto simp add: touch_arcade_def frame_init_breakout frame_move_paddle)
  qed
qed

lemma handle_touch_keeps_scores:
  assumes "handle_touch tx ty now st = Some st'"
  shows "high_scores st' = high_scores st"
  using assms touch_arcade_keeps_scores [of tx ty now st st']
  by (auto simp add: handle_touch_def Let_def frame_process_button frame_touch_tamagotchi
      split: if_splits)

lemma loop_record:
  assumes "loop touch bk now st = Some st'" and "high_scores st' \<noteq> high_scores st"
  shows "game_over st' \<and> (\<exists>v. score_slot (current_game st') = Some v
      \<and> high_scores st ! v < game_score st'
      \<and> high_scores st' = (high_scores st)[v := game_score st'])"
proof -
  from assms(1) obtain st1 st3 where
    t: "(case touch of None \<Rightarrow> Some st | Some (tx, ty) \<Rightarrow> handle_touch tx ty now st) = Some st1"
    and g: "(let st2 = (if bk then process_button BTN_BACK now st1 else st1)
          in if current_screen st2 = SCR_GAME_ARCADE \<and> now - last_game_update st2 > 50
             then update_game now (st2\<lparr>last_game_update := now\<rparr>) else Some st2) = Some st3"
    and r: "st' = (if current_screen st3 = SCR_GAME_TAMAGOTCHI
                then loop_tamagotchi now st3 else st3)"
    by (rule loop_stages)
  have h1: "high_scores st1 = high_scores st"
  proof (cases touch)
    case None
    with t show ?thesis by simp
  next
    case (Some p)
    obtain tx ty where p: "p = (tx, ty)" by (cases p)
    from t Some p have "handle_touch tx ty now st = Some st1" by simp
    then show ?thesis by (rule handle_touch_keeps_scores)
  qed
  define st2 where "st2 = (if bk then process_button BTN_BACK now st1 else st1)"
  have h2: "high_scores st2 = high_scores st"
    using h1 by (simp add: st2_def frame_process_button)
  have g': "(if current_screen st2 = SCR_GAME_ARCADE \<and> now - last_game_update st2 > 50
             then update_game now (st2\<lparr>last_game_update := now\<rparr>) else Some st2) = Some st3"
    using g unfolding Let_def st2_def [symmetric] .
  have h': "high_scores st' = high_scores st3"
    unfolding r by (simp add: frame_loop_tamagotchi)
  show ?thesis
  proof (cases "current_screen st2 = SCR_GAME_ARCADE \<and> now - last_game_update st2 > 50")
    case True
    let ?s = "st2\<lparr>last_game_update := now\<rparr>"
    from True g' have u: "update_game now ?s = Some st3"
      by simp
    have "ctx st3 = ctx ?s"
      using u ctx_update_snake [of now ?s st3]
      by (auto simp add: update_game_def ctx_update_asteroids ctx_update_tetris
          ctx_update_breakout split: if_splits)
    then have c: "current_screen st3 = SCR_GAME_ARCADE" "current_game st3 = current_game st2"
      using True by (simp_all add: ctx_def)
    then have e: "st' = st3"
      by (simp add: r)
    have "high_scores st3 \<noteq> high_scores ?s"
      using assms(2) h2 e by simp
    from update_game_record [OF u this] show ?thesis
      unfolding e using h2 c(2) by (auto simp add: new_record_def)
  next
    case False
    with g' have "st3 = st2"
      by auto
    with h' h2 assms(2) show ?thesis
      by simp
  qed
qed

text \<open>
  Claim C9. A tick of the running game that changes \<open>high_scores\<close> starts with the game
  not over and ends with it over, the game has a slot, the score at the end of the tick is
  strictly greater than what the slot held, and the slot, and nothing else, now holds that
  score. So a tick that does not end the game (an advance, a level reset) leaves the high
  scores alone. Touches (steering, the play-again reset, the choice of a game), buttons and
  the pet's part of \<open>loop\<close> never change them; hence a whole pass of \<open>loop\<close> changes
  them only by ending the game with a new record.
\<close>

theorem high_scores_change_at_game_over:
  "(update_game now st = Some st' \<longrightarrow> high_scores st' \<noteq> high_scores st \<longrightarrow>
      (\<exists>v. score_slot (current_game st) = Some v \<and> new_record v st st'))
   \<and> (handle_touch tx ty now st = Some st' \<longrightarrow> high_scores st' = high_scores st)
   \<and> high_scores (process_button b now st) = high_scores st
   \<and> high_scores (loop_tamagotchi now st) = high_scores st
   \<and> high_scores (init_asteroids st) = high_scores st
   \<and> high_scores (init_tetris now st) = high_scores st
   \<and> (init_snake now st = Some st' \<longrightarrow> high_scores st' = high_scores st)
   \<and> high_scores (init_breakout st) = high_scores st
   \<and> (loop touch bk now st = Some st' \<longrightarrow> high_scores st' \<noteq> high_scores st \<longrightarrow>
        game_over st' \<and> (\<exists>v. score_slot (current_game st') = Some v
          \<and> high_scores st ! v < game_score st'
          \<and> high_scores st' = (high_scores st)[v := game_score st']))"
  using update_game_record [of now st st'] handle_touch_keeps_scores [of tx ty now st st']
    loop_record [of touch bk now st st'] frame_init_snake [of now st st']
  by (simp add: frame_process_button frame_loop_tamagotchi frame_init_asteroids
      frame_init_tetris frame_init_breakout)

text \<open>
  Witness: the tick in which the ball of \<open>lost_ball\<close> leaves the screen ends the game and
  writes its 10 points over the 0 of slot 3; moving the paddle in the same state does not
  change the high scores.
\<close>

lemma lost_ball_fields:
  "\<not> game_over lost_ball" "high_scores lost_ball = [0, 0, 0, 0]"
  "current_game lost_ball = BREAKOUT" "current_screen lost_ball = SCR_GAME_ARCADE"
  "game_score lost_ball = 10" "ball_y lost_ball = 442" "ball_dy lost_ball = 3"
  by (simp_all add: lost_ball_def init_breakout_def power_on_def)

lemma lost_ball_tick:
  "map_option (\<lambda>s. (game_over s, game_score s, high_scores s)) (update_game 0 lost_ball)
     = Some (True, 10, [0, 0, 0, 10])"
proof -
  have "update_game 0 lost_ball = Some (update_breakout lost_ball)"
    by (simp add: update_game_def lost_ball_fields)
  moreover have "game_over (update_breakout lost_ball)
      \<and> game_score (update_breakout lost_ball) = 10
      \<and> high_scores (update_breakout lost_ball) = [0, 0, 0, 10]"
    unfolding update_breakout_def Let_def
    by (simp add: lost_ball_fields AMOLED_1IN8_HEIGHT_def ball_radius_def)
  ultimately show ?thesis
    by simp
qed

theorem high_scores_change_at_game_over_witness:
  "update_game 0 lost_ball \<noteq> None
   \<and> high_scores (the (update_game 0 lost_ball)) = [0, 0, 0, 10]
   \<and> new_record 3 lost_ball (the (update_game 0 lost_ball))
   \<and> high_scores (the (handle_touch 100 200 0 lost_ball)) = high_scores lost_ball"
proof -
  obtain s where s: "update_game 0 lost_ball = Some s"
    using lost_ball_tick by (cases "update_game 0 lost_ball") simp_all
  have h: "high_scores s = [0, 0, 0, 10]"
    using lost_ball_tick by (simp add: s)
  obtain t where t: "handle_touch 100 200 0 lost_ball = Some t"
    by (simp add: handle_touch_def touch_arcade_def lost_ball_fields)
  note r = high_scores_change_at_game_over [of 0 lost_ball]
  from r [of s] have "new_record 3 lost_ball s"
    using s h by (simp add: lost_ball_fields)
  moreover from r [of t 100 200] have "high_scores t = high_scores lost_ball"
    using t by simp
  ultimately show ?thesis
    by (simp add: s t h)
qed

end
